theory Spec2Isabelle
  imports Complex_Main "HOL-Library.Stream" "HOL-Library.Char_ord" "HOL-Library.List_Lexorder"
begin

section \<open>Numbers\<close>

text \<open>
  A JavaScript number is modelled by the real it denotes: sums and products are exact.
  The source rounds every monetary value with \<^verbatim>\<open>parseFloat(x.toFixed(2))\<close>; \<open>toFixed\<close> picks
  the integer \<open>n\<close> with \<open>n / 100\<close> nearest to \<open>x\<close>, the larger one on a tie, and treats a
  negative \<open>x\<close> through its absolute value.
\<close>

definition toFixed2 :: "real \<Rightarrow> real" where
  "toFixed2 x =
     (if x < 0 then - (of_int \<lfloor>(- x) * 100 + 1 / 2\<rfloor> / 100)
      else of_int \<lfloor>x * 100 + 1 / 2\<rfloor> / 100)"

section \<open>Text\<close>

text \<open>
  Strings are lists of characters, restricted to ASCII where the source tests or changes the case
  of a letter; a character beyond ASCII that a literal of the source holds is written as the bytes
  of its UTF-8 encoding.
\<close>

definition is_digit :: "char \<Rightarrow> bool" where
  "is_digit c = (c \<in> set ''0123456789'')"

definition is_upper :: "char \<Rightarrow> bool" where
  "is_upper c = (c \<in> set ''ABCDEFGHIJKLMNOPQRSTUVWXYZ'')"

definition is_lower :: "char \<Rightarrow> bool" where
  "is_lower c = (c \<in> set ''abcdefghijklmnopqrstuvwxyz'')"

text \<open>The class \<^verbatim>\<open>\s\<close> on ASCII: space, tab, line feed, vertical tab, form feed, carriage return.\<close>

definition is_space :: "char \<Rightarrow> bool" where
  "is_space c = (c \<in> {CHR '' '', CHR 0x09, CHR 0x0A, CHR 0x0B, CHR 0x0C, CHR 0x0D})"

definition upper_char :: "char \<Rightarrow> char" where
  "upper_char c =
     (case map_of (zip ''abcdefghijklmnopqrstuvwxyz'' ''ABCDEFGHIJKLMNOPQRSTUVWXYZ'') c of
        Some u \<Rightarrow> u | None \<Rightarrow> c)"

definition lower_char :: "char \<Rightarrow> char" where
  "lower_char c =
     (case map_of (zip ''ABCDEFGHIJKLMNOPQRSTUVWXYZ'' ''abcdefghijklmnopqrstuvwxyz'') c of
        Some l \<Rightarrow> l | None \<Rightarrow> c)"

definition toUpperCase :: "string \<Rightarrow> string" where
  "toUpperCase s = map upper_char s"

definition toLowerCase :: "string \<Rightarrow> string" where
  "toLowerCase s = map lower_char s"

text \<open>\<^verbatim>\<open>xs.join(sep)\<close>\<close>

fun join :: "string \<Rightarrow> string list \<Rightarrow> string" where
  "join sep [] = []"
| "join sep [x] = x"
| "join sep (x # y # ys) = x @ sep @ join sep (y # ys)"

text \<open>\<^verbatim>\<open>s.trim()\<close>\<close>

definition trim :: "string \<Rightarrow> string" where
  "trim s = rev (dropWhile is_space (rev (dropWhile is_space s)))"

text \<open>\<^verbatim>\<open>s.split(' ')\<close>: the pieces between single spaces, empty pieces kept.\<close>

fun split_on :: "char \<Rightarrow> string \<Rightarrow> string \<Rightarrow> string list" where
  "split_on d cur [] = [cur]"
| "split_on d cur (c # cs) = (if c = d then cur # split_on d [] cs else split_on d (cur @ [c]) cs)"

definition digit_char :: "nat \<Rightarrow> char" where
  "digit_char n = ''0123456789'' ! (n mod 10)"

definition digit_val :: "char \<Rightarrow> nat" where
  "digit_val c = (case map_of (zip ''0123456789'' [0 ..< 10]) c of Some v \<Rightarrow> v | None \<Rightarrow> 0)"

text \<open>The decimal digits of a natural number, as \<^verbatim>\<open>n.toString()\<close> prints them.\<close>

fun show_nat :: "nat \<Rightarrow> string" where
  "show_nat n = (if n < 10 then [digit_char n] else show_nat (n div 10) @ [digit_char (n mod 10)])"

declare show_nat.simps [simp del]

definition show_int :: "int \<Rightarrow> string" where
  "show_int i = (if i < 0 then ''-'' @ show_nat (nat (- i)) else show_nat (nat i))"

text \<open>\<^verbatim>\<open>s.padStart(n, '0')\<close>\<close>

definition padStart0 :: "nat \<Rightarrow> string \<Rightarrow> string" where
  "padStart0 n s = replicate (n - length s) CHR ''0'' @ s"

text \<open>Exactly \<open>k\<close> digits, the low ones of \<open>n\<close>, zero filled.\<close>

fun fixed_digits :: "nat \<Rightarrow> nat \<Rightarrow> string" where
  "fixed_digits 0 n = []"
| "fixed_digits (Suc k) n = fixed_digits k (n div 10) @ [digit_char (n mod 10)]"

definition nat_of_digits :: "string \<Rightarrow> nat option" where
  "nat_of_digits cs =
     (if cs \<noteq> [] \<and> list_all is_digit cs then Some (foldl (\<lambda>a c. 10 * a + digit_val c) 0 cs)
      else None)"

section \<open>Printing numbers\<close>

text \<open>
  \<^verbatim>\<open>x.toFixed(k)\<close> as text: the sign, the integer part and exactly \<open>k\<close> decimals of the
  nearest multiple of \<open>10\<^sup>-\<^sup>k\<close>, ties away from zero.
\<close>

definition toFixed :: "nat \<Rightarrow> real \<Rightarrow> string" where
  "toFixed k x =
     (let n = nat \<lfloor>\<bar>x\<bar> * 10 ^ k + 1 / 2\<rfloor>;
          body = show_nat (n div 10 ^ k) @ (if k = 0 then [] else ''.'' @ fixed_digits k (n mod 10 ^ k))
      in if x < 0 \<and> n \<noteq> 0 then ''-'' @ body else body)"

text \<open>
  \<^verbatim>\<open>String(x)\<close> for a number with at most two decimals, which every amount of a generated
  suite is: the shortest decimal, so trailing zeros of the fraction are dropped and zero prints
  without a sign. A number with more decimals prints here as its nearest hundredth.
\<close>

definition show_number :: "real \<Rightarrow> string" where
  "show_number x =
     (let n = nat \<lfloor>\<bar>x\<bar> * 100 + 1 / 2\<rfloor>;
          frac_part = (if n mod 100 = 0 then []
                  else if n mod 10 = 0 then ''.'' @ fixed_digits 1 (n mod 100 div 10)
                  else ''.'' @ fixed_digits 2 (n mod 100));
          body = show_nat (n div 100) @ frac_part
      in if x < 0 \<and> n \<noteq> 0 then ''-'' @ body else body)"

section \<open>Dates\<close>

text \<open>
  A \<^verbatim>\<open>Date\<close> holds a time value, the milliseconds since 1970-01-01T00:00Z, or is the
  Invalid Date (\<open>None\<close>). The calendar functions are those of ECMA-262 (section "Time Values and
  Time Range"), on UTC; the worker that runs the generator has no other time zone, so local
  time is UTC as well.
\<close>

type_synonym Date = "int option"

definition msPerDay :: int where
  "msPerDay = 1000 * 60 * 60 * 24"

definition TimeClip :: "int \<Rightarrow> Date" where
  "TimeClip t = (if \<bar>t\<bar> \<le> 8640000000000000 then Some t else None)"

definition Day :: "int \<Rightarrow> int" where
  "Day t = t div msPerDay"

definition leap_year :: "int \<Rightarrow> bool" where
  "leap_year y = (y mod 4 = 0 \<and> (y mod 100 \<noteq> 0 \<or> y mod 400 = 0))"

definition DaysInYear :: "int \<Rightarrow> int" where
  "DaysInYear y = (if leap_year y then 366 else 365)"

definition DayFromYear :: "int \<Rightarrow> int" where
  "DayFromYear y =
     365 * (y - 1970) + (y - 1969) div 4 - (y - 1901) div 100 + (y - 1601) div 400"

text \<open>Each year adds its own length to \<open>DayFromYear\<close>; the search for a year rests on it.\<close>

lemma div_step:
  fixes a n :: int
  assumes "1 < n"
  shows "(a + 1) div n = a div n + (if (a + 1) mod n = 0 then 1 else 0)"
proof -
  define q where "q = (a + 1) div n"
  define r where "r = (a + 1) mod n"
  have r: "0 \<le> r" "r < n" using assms by (simp_all add: r_def)
  have a: "a + 1 = n * q + r" by (simp add: q_def r_def)
  show ?thesis
  proof (cases "r = 0")
    case True
    have "a = n * (q - 1) + (n - 1)" using a True by (simp add: algebra_simps)
    then have "a div n = q - 1" using assms by (intro int_div_pos_eq[where r = "n - 1"]) auto
    then show ?thesis using True by (simp add: q_def r_def)
  next
    case False
    have "a = n * q + (r - 1)" using a by (simp add: algebra_simps)
    then have "a div n = q" using r False by (intro int_div_pos_eq[where r = "r - 1"]) auto
    then show ?thesis using False by (simp add: q_def r_def)
  qed
qed

lemma mod_shift:
  fixes y :: int
  shows "(y - n * k) mod n = y mod n"
  by (metis add.commute diff_add_cancel mod_mult_self4)

lemma mod_dvd_trans:
  fixes y :: int
  assumes "m dvd n" "y mod n = 0"
  shows "y mod m = 0"
  using assms by (meson dvd_trans mod_eq_0_iff_dvd)

lemma year_step:
  fixes y c n :: int
  assumes "1 < n" "(c - 1) mod n = 0"
  shows "(y + 1 - c) div n = (y - c) div n + (if y mod n = 0 then 1 else 0)"
proof -
  obtain k where k: "c - 1 = n * k" using assms(2) by (metis mod_eq_0_iff_dvd dvd_def)
  have "y - c + 1 = y - n * k" using k by (simp add: algebra_simps)
  then have "(y - c + 1) mod n = y mod n" by (simp only: mod_shift)
  moreover have "y + 1 - c = y - c + 1" by simp
  ultimately show ?thesis using div_step[OF assms(1), of "y - c"] by (simp only:)
qed

lemma DayFromYear_Suc: "DayFromYear (y + 1) = DayFromYear y + DaysInYear y"
proof -
  have a: "(y + 1 - 1969) div 4 = (y - 1969) div 4 + (if y mod 4 = 0 then 1 else 0)"
    by (rule year_step) simp_all
  have b: "(y + 1 - 1901) div 100 = (y - 1901) div 100 + (if y mod 100 = 0 then 1 else 0)"
    by (rule year_step) simp_all
  have c: "(y + 1 - 1601) div 400 = (y - 1601) div 400 + (if y mod 400 = 0 then 1 else 0)"
    by (rule year_step) simp_all
  have d: "y mod 100 = 0 \<Longrightarrow> y mod 4 = 0" by (rule mod_dvd_trans[of 4 100]) simp_all
  have e: "y mod 400 = 0 \<Longrightarrow> y mod 100 = 0" by (rule mod_dvd_trans[of 100 400]) simp_all
  have "DayFromYear (y + 1) =
      365 * (y + 1 - 1970) + (y + 1 - 1969) div 4 - (y + 1 - 1901) div 100 + (y + 1 - 1601) div 400"
    by (simp only: DayFromYear_def)
  also have "\<dots> = DayFromYear y + (365 + (if y mod 4 = 0 then 1 else 0)
       - (if y mod 100 = 0 then 1 else 0) + (if y mod 400 = 0 then 1 else 0))"
    unfolding a b c DayFromYear_def by (simp only: algebra_simps)
  also have "(365 + (if y mod 4 = 0 then 1 else 0) - (if y mod 100 = 0 then 1 else 0)
       + (if y mod 400 = 0 then 1 else 0)) = DaysInYear y"
  proof -
    define p q r where pqr: "p \<longleftrightarrow> y mod 4 = 0" "q \<longleftrightarrow> y mod 100 = 0" "r \<longleftrightarrow> y mod 400 = 0"
    have "q \<longrightarrow> p" "r \<longrightarrow> q" unfolding pqr using d e by blast+
    then have "(365 + (if p then 1 else 0) - (if q then 1 else 0) + (if r then 1 else 0)) =
       (if p \<and> (\<not> q \<or> r) then 366 else (365::int))"
      by (cases p; cases q; cases r) simp_all
    then show ?thesis by (simp only: pqr DaysInYear_def leap_year_def)
  qed
  finally show ?thesis .
qed

lemma DaysInYear_bounds: "365 \<le> DaysInYear y" "DaysInYear y \<le> 366"
  by (simp_all add: DaysInYear_def)

text \<open>
  \<open>YearFromTime\<close> is the largest year that starts on or before the day. The search climbs
  from a year that surely does: no year is longer than 366 days nor shorter than 365.
\<close>

function year_search :: "int \<Rightarrow> int \<Rightarrow> int" where
  "year_search d y = (if DayFromYear (y + 1) \<le> d then year_search d (y + 1) else y)"
  by pat_completeness auto
termination
proof (relation "measure (\<lambda>(d, y). nat (d + 1 - DayFromYear (y + 1)))")
  show "wf (measure (\<lambda>(d, y). nat (d + 1 - DayFromYear (y + 1))))" by simp
next
  fix d y :: int
  assume "DayFromYear (y + 1) \<le> d"
  moreover have "DayFromYear (y + 1 + 1) = DayFromYear (y + 1) + DaysInYear (y + 1)"
    by (rule DayFromYear_Suc)
  moreover have "365 \<le> DaysInYear (y + 1)" by (rule DaysInYear_bounds)
  ultimately show "((d, y + 1), (d, y)) \<in> measure (\<lambda>(d, y). nat (d + 1 - DayFromYear (y + 1)))"
    by simp
qed

declare year_search.simps [simp del]

definition YearFromDay :: "int \<Rightarrow> int" where
  "YearFromDay d = year_search d (1970 + (if 0 \<le> d then d div 366 else d div 365))"

definition YearFromTime :: "int \<Rightarrow> int" where
  "YearFromTime t = YearFromDay (Day t)"

definition DayWithinYear :: "int \<Rightarrow> int" where
  "DayWithinYear t = Day t - DayFromYear (YearFromTime t)"

definition InLeapYear :: "int \<Rightarrow> int" where
  "InLeapYear t = (if DaysInYear (YearFromTime t) = 366 then 1 else 0)"

text \<open>The day of the year on which month \<open>m\<close> (0 to 11) starts; entry 12 is the year's length.\<close>

definition MonthStart :: "int \<Rightarrow> nat \<Rightarrow> int" where
  "MonthStart l m =
     [0, 31, 59 + l, 90 + l, 120 + l, 151 + l, 181 + l, 212 + l, 243 + l, 273 + l, 304 + l,
      334 + l, 365 + l] ! m"

definition MonthFromDay :: "int \<Rightarrow> int \<Rightarrow> nat" where
  "MonthFromDay l dw =
     (if dw < 31 then 0
      else if dw < 59 + l then 1
      else if dw < 90 + l then 2
      else if dw < 120 + l then 3
      else if dw < 151 + l then 4
      else if dw < 181 + l then 5
      else if dw < 212 + l then 6
      else if dw < 243 + l then 7
      else if dw < 273 + l then 8
      else if dw < 304 + l then 9
      else if dw < 334 + l then 10
      else 11)"

definition MonthFromTime :: "int \<Rightarrow> nat" where
  "MonthFromTime t = MonthFromDay (InLeapYear t) (DayWithinYear t)"

definition DateFromTime :: "int \<Rightarrow> int" where
  "DateFromTime t = DayWithinYear t - MonthStart (InLeapYear t) (MonthFromTime t) + 1"

definition DaysInMonth :: "int \<Rightarrow> nat \<Rightarrow> int" where
  "DaysInMonth y m =
     (let l = (if leap_year y then 1 else 0) in MonthStart l (m + 1) - MonthStart l m)"

text \<open>\<open>MakeDay\<close> for a month in 0 to 11: the day number of the given date.\<close>

definition MakeDay :: "int \<Rightarrow> nat \<Rightarrow> int \<Rightarrow> int" where
  "MakeDay y m dt = DayFromYear y + MonthStart (if leap_year y then 1 else 0) m + dt - 1"

datatype error = RangeError | TypeError

text \<open>
  The year of \<^verbatim>\<open>toISOString\<close>: four digits from 0 to 9999, otherwise a sign and six digits.
\<close>

definition iso_year :: "int \<Rightarrow> string" where
  "iso_year y =
     (if 0 \<le> y \<and> y \<le> 9999 then fixed_digits 4 (nat y)
      else (if y < 0 then ''-'' else ''+'') @ fixed_digits 6 (nat \<bar>y\<bar>))"

text \<open>
  \<^verbatim>\<open>date.toISOString().split('T')[0]\<close>; \<^verbatim>\<open>toISOString\<close> throws a RangeError on the
  Invalid Date.
\<close>

definition formatDate :: "Date \<Rightarrow> error + string" where
  "formatDate date =
     (case date of
        None \<Rightarrow> Inl RangeError
      | Some t \<Rightarrow>
          Inr (iso_year (YearFromTime t) @ ''-'' @ fixed_digits 2 (MonthFromTime t + 1) @ ''-''
               @ fixed_digits 2 (nat (DateFromTime t))))"

text \<open>
  \<^verbatim>\<open>new Date(s)\<close> for the date-only form of the ECMA-262 date-time string format,
  \<^verbatim>\<open>YYYY-MM-DD\<close> or \<^verbatim>\<open>\<plusminus>YYYYYY-MM-DD\<close>, which is UTC midnight of that day. This is the form
  the application's date inputs send and the form \<open>formatDate\<close> writes. Every other string
  is taken as unparseable here and gives the Invalid Date.
\<close>

definition parse_year :: "string \<Rightarrow> int option" where
  "parse_year s =
     (if length s = 4 then map_option int (nat_of_digits s)
      else if length s = 7 \<and> hd s = CHR ''+'' then map_option int (nat_of_digits (tl s))
      else if length s = 7 \<and> hd s = CHR ''-'' then
        (case nat_of_digits (tl s) of
           Some n \<Rightarrow> if n = 0 then None else Some (- int n)
         | None \<Rightarrow> None)
      else None)"

definition new_Date :: "string \<Rightarrow> Date" where
  "new_Date s =
     (let n = length s in
      if 6 \<le> n \<and> s ! (n - 6) = CHR ''-'' \<and> s ! (n - 3) = CHR ''-'' then
        (case (parse_year (take (n - 6) s), nat_of_digits (take 2 (drop (n - 5) s)),
               nat_of_digits (drop (n - 2) s)) of
           (Some y, Some m, Some d) \<Rightarrow>
             if 1 \<le> m \<and> m \<le> 12 \<and> 1 \<le> d \<and> int d \<le> DaysInMonth y (m - 1)
             then TimeClip (MakeDay y (m - 1) (int d) * msPerDay)
             else None
         | _ \<Rightarrow> None)
      else None)"

text \<open>
  \<^verbatim>\<open>result.setDate(result.getDate() + days)\<close> moves the time value by whole days and clips
  it to the range of time values.
\<close>

definition addDays :: "Date \<Rightarrow> int \<Rightarrow> Date" where
  "addDays date days = (case date of None \<Rightarrow> None | Some t \<Rightarrow> TimeClip (t + days * msPerDay))"

section \<open>The random source\<close>

text \<open>
  The generator draws from \<^verbatim>\<open>Math.random\<close>, from the faker library and from \<^verbatim>\<open>uuidv4\<close>.
  The model reads them from two tapes that are part of the input: reals for every uniform
  draw, texts for every word, name or identifier that faker and uuid make up. A uniform draw
  is the fractional part of the next real, so it lies in \<open>[0, 1)\<close> whatever the tape holds, and
  every sequence of draws in \<open>[0, 1)\<close> comes from the tape that lists it.
\<close>

record source =
  uniform :: "real stream"
  words :: "string stream"

definition Math_random :: "source \<Rightarrow> real \<times> source" where
  "Math_random g = (frac (shd (uniform g)), g\<lparr>uniform := stl (uniform g)\<rparr>)"

definition faker_text :: "source \<Rightarrow> string \<times> source" where
  "faker_text g = (shd (words g), g\<lparr>words := stl (words g)\<rparr>)"

text \<open>\<^verbatim>\<open>uuidv4()\<close>\<close>

definition uuidv4 :: "source \<Rightarrow> string \<times> source" where
  "uuidv4 g = faker_text g"

text \<open>\<^verbatim>\<open>Math.floor(Math.random() * (max - min + 1)) + min\<close>\<close>

definition randomBetween :: "int \<Rightarrow> int \<Rightarrow> source \<Rightarrow> int \<times> source" where
  "randomBetween lo hi g =
     (case Math_random g of (u, g') \<Rightarrow> (\<lfloor>u * of_int (hi - lo + 1)\<rfloor> + lo, g'))"

text \<open>\<^verbatim>\<open>parseFloat((Math.random() * (max - min) + min).toFixed(2))\<close>\<close>

definition randomFloat :: "real \<Rightarrow> real \<Rightarrow> source \<Rightarrow> real \<times> source" where
  "randomFloat lo hi g = (case Math_random g of (u, g') \<Rightarrow> (toFixed2 (u * (hi - lo) + lo), g'))"

text \<open>\<^verbatim>\<open>faker.number.int({ min, max })\<close>: an integer of the closed range.\<close>

definition faker_int :: "int \<Rightarrow> int \<Rightarrow> source \<Rightarrow> int \<times> source" where
  "faker_int lo hi g = randomBetween lo hi g"

text \<open>
  \<^verbatim>\<open>faker.helpers.arrayElement(xs)\<close>: an element of the array. Every array the source passes
  is a non-empty literal or is tested for its length first.
\<close>

definition arrayElement :: "'a list \<Rightarrow> source \<Rightarrow> 'a \<times> source" where
  "arrayElement xs g =
     (case Math_random g of (u, g') \<Rightarrow> (xs ! nat \<lfloor>u * of_nat (length xs)\<rfloor>, g'))"

section \<open>Companies and their name variations\<close>

record Company =
  name :: string
  address :: string
  phone :: string
  email :: string
  website :: string
  bankName :: string
  iban :: string
  vatId :: string
  nameVariations :: "string list option"

record Country =
  code :: string
  localeTag :: string
  suffix :: "string list"
  vatPrefix :: string
  ibanPrefix :: string
  bankNames :: "string list"

definition EU_COUNTRIES :: "Country list" where
  "EU_COUNTRIES =
    [\<lparr>code = ''DE'', localeTag = ''de'', suffix = [''GmbH'', ''AG'', ''KG''], vatPrefix = ''DE'',
      ibanPrefix = ''DE'', bankNames = [''Deutsche Bank AG'', ''Commerzbank AG'', ''DZ Bank AG'']\<rparr>,
     \<lparr>code = ''NL'', localeTag = ''nl'', suffix = [''B.V.'', ''N.V.''], vatPrefix = ''NL'',
      ibanPrefix = ''NL'', bankNames = [''ING Bank N.V.'', ''ABN AMRO'', ''Rabobank'']\<rparr>,
     \<lparr>code = ''GB'', localeTag = ''en_GB'', suffix = [''Ltd'', ''PLC''], vatPrefix = ''GB'',
      ibanPrefix = ''GB'', bankNames = [''Barclays Bank'', ''HSBC UK'', ''Lloyds Bank'']\<rparr>,
     \<lparr>code = ''FR'', localeTag = ''fr'', suffix = [''S.A.'', ''S.A.R.L.'', ''SAS''], vatPrefix = ''FR'',
      ibanPrefix = ''FR'',
      bankNames = [''BNP Paribas'', ''Cr'' @ [CHR 0xC3, CHR 0xA9] @ ''dit Agricole'',
                   ''Soci'' @ [CHR 0xC3, CHR 0xA9] @ ''t'' @ [CHR 0xC3, CHR 0xA9] @ '' G''
                   @ [CHR 0xC3, CHR 0xA9] @ ''n'' @ [CHR 0xC3, CHR 0xA9] @ ''rale'']\<rparr>,
     \<lparr>code = ''IT'', localeTag = ''it'', suffix = [''SpA'', ''S.r.l.''], vatPrefix = ''IT'',
      ibanPrefix = ''IT'',
      bankNames = [''UniCredit S.p.A.'', ''Intesa Sanpaolo'', ''Banca Monte dei Paschi'']\<rparr>,
     \<lparr>code = ''ES'', localeTag = ''es'', suffix = [''S.A.'', ''S.L.''], vatPrefix = ''ES'',
      ibanPrefix = ''ES'', bankNames = [''Banco Santander'', ''BBVA'', ''CaixaBank'']\<rparr>,
     \<lparr>code = ''SE'', localeTag = ''sv'', suffix = [''AB'', ''AS''], vatPrefix = ''SE'',
      ibanPrefix = ''SE'', bankNames = [''Nordea Bank'', ''SEB'', ''Swedbank'']\<rparr>,
     \<lparr>code = ''CH'', localeTag = ''de_CH'', suffix = [''AG'', ''GmbH'', ''SA''], vatPrefix = ''CHE'',
      ibanPrefix = ''CH'',
      bankNames = [''UBS AG'', ''Credit Suisse'', ''Z'' @ [CHR 0xC3, CHR 0xBC] @ ''rcher Kantonalbank'']\<rparr>,
     \<lparr>code = ''BE'', localeTag = ''nl_BE'', suffix = [''S.A.'', ''N.V.'', ''SPRL''], vatPrefix = ''BE'',
      ibanPrefix = ''BE'', bankNames = [''BNP Paribas Fortis'', ''KBC Bank'', ''Belfius'']\<rparr>,
     \<lparr>code = ''AT'', localeTag = ''de_AT'', suffix = [''GmbH'', ''AG''], vatPrefix = ''ATU'',
      ibanPrefix = ''AT'', bankNames = [''Erste Bank'', ''Raiffeisen Bank'', ''Bank Austria'']\<rparr>]"

definition BUSINESS_PREFIXES :: "string list" where
  "BUSINESS_PREFIXES =
    [''Tech'', ''Data'', ''Cloud'', ''Digital'', ''Smart'', ''Euro'', ''Global'', ''Pro'', ''Net'',
     ''Sys'', ''Info'', ''Cyber'', ''Logic'', ''Soft'', ''Web'', ''Auto'', ''Bio'', ''Eco'', ''Med'',
     ''Fin'']"

definition BUSINESS_SUFFIXES :: "string list" where
  "BUSINESS_SUFFIXES =
    [''Solutions'', ''Systems'', ''Services'', ''Tech'', ''Soft'', ''Pro'', ''Labs'', ''Works'',
     ''Group'', ''Corp'', ''Dynamics'', ''Logic'', ''Ware'', ''Net'', ''Link'', ''Hub'', ''Base'',
     ''Core'', ''Wave'', ''Flow'']"

definition BUSINESS_INDUSTRIES :: "string list" where
  "BUSINESS_INDUSTRIES =
    [''Software'', ''Consulting'', ''Logistics'', ''Marketing'', ''Finance'', ''Engineering'',
     ''Supply'', ''Print'', ''Medical'', ''Office'', ''Security'', ''Analytics'', ''Automation'',
     ''Integration'', ''Components'']"

text \<open>\<^verbatim>\<open>faker.person.lastName()\<close> is a text of the source's second tape.\<close>

definition generateBusinessName :: "source \<Rightarrow> string \<times> source" where
  "generateBusinessName g0 =
     (let (style, g1) = faker_int 0 3 g0 in
      if style = 0 then
        (let (a, g2) = arrayElement BUSINESS_PREFIXES g1;
             (b, g3) = arrayElement BUSINESS_SUFFIXES g2
         in (a @ b, g3))
      else if style = 1 then
        (let (a, g2) = arrayElement [''Nordic'', ''Euro'', ''Global'', ''Prime'', ''Alpha'', ''Delta''] g1;
             (b, g3) = arrayElement BUSINESS_INDUSTRIES g2
         in (a @ '' '' @ b, g3))
      else if style = 2 then
        (let (a, g2) = faker_text g1;
             (b, g3) = arrayElement BUSINESS_INDUSTRIES g2
         in (a @ '' '' @ b, g3))
      else
        (let (a, g2) = arrayElement BUSINESS_PREFIXES g1;
             (b, g3) = arrayElement BUSINESS_INDUSTRIES g2
         in (a @ b, g3)))"

text \<open>
  \<^verbatim>\<open>baseName.split(/(?=[A-Z])|\s+/)\<close>, by the steps of \<^verbatim>\<open>String.prototype.split\<close>. \<open>cur\<close> is
  the piece read since the last cut. Before a capital the empty match cuts, unless the piece is
  still empty (a match that ends where the piece starts is skipped). A run of white space cuts
  and is dropped, and the piece before it is kept even when it is empty. The last piece is
  always kept.
\<close>

function split_words :: "string \<Rightarrow> string \<Rightarrow> string list" where
  "split_words cur [] = [cur]"
| "split_words cur (c # cs) =
     (if is_upper c then (if cur = [] then split_words [c] cs else cur # split_words [c] cs)
      else if is_space c then cur # split_words [] (dropWhile is_space cs)
      else split_words (cur @ [c]) cs)"
  by pat_completeness auto
termination
  by (relation "measure (\<lambda>(cur, rest). length rest)")
     (auto simp: le_imp_less_Suc length_dropWhile_le)

text \<open>\<^verbatim>\<open>baseName.replace(/([a-z])([A-Z])/g, '$1 $2')\<close>\<close>

fun space_camel :: "string \<Rightarrow> string" where
  "space_camel (a # b # cs) =
     (if is_lower a \<and> is_upper b then a # CHR '' '' # b # space_camel cs
      else a # space_camel (b # cs))"
| "space_camel cs = cs"

text \<open>\<^verbatim>\<open>[...new Set(xs)]\<close>: each value once, in the order of its first occurrence.\<close>

fun uniq_from :: "'a list \<Rightarrow> 'a list \<Rightarrow> 'a list" where
  "uniq_from seen [] = seen"
| "uniq_from seen (x # xs) =
     (if x \<in> set seen then uniq_from seen xs else uniq_from (seen @ [x]) xs)"

definition uniq :: "'a list \<Rightarrow> 'a list" where
  "uniq xs = uniq_from [] xs"

definition generateNameVariations :: "string \<Rightarrow> string \<Rightarrow> string list" where
  "generateNameVariations baseName legalSuffix =
     (let fullName = baseName @ '' '' @ legalSuffix;
          variations0 = [toUpperCase fullName, baseName, toUpperCase baseName];
          abbrev = toUpperCase (concat (map (take 1) (split_words [] baseName)));
          variations1 = (if 2 \<le> length abbrev
                         then variations0 @ [abbrev, abbrev @ '' '' @ legalSuffix]
                         else variations0);
          spaced = space_camel baseName;
          variations2 = (if spaced \<noteq> baseName
                         then variations1 @ [spaced, spaced @ '' '' @ legalSuffix]
                         else variations1);
          cleanSuffix = filter (\<lambda>c. c \<noteq> CHR ''.'') legalSuffix;
          variations3 = (if cleanSuffix \<noteq> legalSuffix
                         then variations2 @ [baseName @ '' '' @ cleanSuffix]
                         else variations2);
          variations4 = (if 10 < length baseName
                         then variations3 @ [toUpperCase (take 10 baseName)]
                         else variations3)
      in uniq variations4)"

text \<open>
  The street, postcode, city, phone number, e-mail address, IBAN and the nine digits of the VAT
  number come from faker: texts of the second tape, in the order the object literal asks for
  them.
\<close>

definition generateCompany :: "source \<Rightarrow> Company \<times> source" where
  "generateCompany g0 =
     (let (country, g1) = arrayElement EU_COUNTRIES g0;
          (baseName, g2) = generateBusinessName g1;
          (legalSuffix, g3) = arrayElement (suffix country) g2;
          fullName = baseName @ '' '' @ legalSuffix;
          (street, g4) = faker_text g3;
          (zip, g5) = faker_text g4;
          (city, g6) = faker_text g5;
          (phoneNumber, g7) = faker_text g6;
          (mail, g8) = faker_text g7;
          (bank, g9) = arrayElement (bankNames country) g8;
          (ibanText, g10) = faker_text g9;
          (numeric9, g11) = faker_text g10
      in (\<lparr>name = fullName,
           address = street @ '', '' @ zip @ '' '' @ city @ '', '' @ code country,
           phone = phoneNumber,
           email = mail,
           website = ''www.'' @ filter (\<lambda>c. \<not> is_space c) (toLowerCase baseName) @ ''.''
                     @ toLowerCase (code country),
           bankName = bank,
           iban = ibanText,
           vatId = vatPrefix country @ numeric9,
           nameVariations = Some (generateNameVariations baseName legalSuffix)\<rparr>, g11))"

definition getRandomSupplier :: "source \<Rightarrow> Company \<times> source" where
  "getRandomSupplier g = generateCompany g"

definition KNOWN_SUFFIXES :: "string list" where
  "KNOWN_SUFFIXES =
    [''GmbH'', ''Ltd'', ''AG'', ''B.V.'', ''S.A.'', ''SpA'', ''KG'', ''Oy'', ''AS'', ''S.L.'', ''AB'',
     ''N.V.'', ''PLC'', ''S.r.l.'', ''S.A.R.L.'', ''SAS'', ''SPRL'']"

text \<open>
  \<^verbatim>\<open>name.replace(/\s+(GmbH|Ltd|...|SPRL)$/i, '')\<close>: no alternative holds white space and the
  match ends the string, so the string matches when its last word is one of the suffixes,
  whatever the case of its letters, and white space stands before that word; the match starts
  where that white space starts and is removed.
\<close>

definition strip_legal_suffix :: "string \<Rightarrow> string" where
  "strip_legal_suffix s =
     (let lastWord = rev (takeWhile (\<lambda>c. \<not> is_space c) (rev s));
          front = rev (dropWhile (\<lambda>c. \<not> is_space c) (rev s))
      in if front \<noteq> [] \<and> toLowerCase lastWord \<in> set (map toLowerCase KNOWN_SUFFIXES)
         then rev (dropWhile is_space (rev front))
         else s)"

definition generateSimpleVariation :: "string \<Rightarrow> source \<Rightarrow> string \<times> source" where
  "generateSimpleVariation s g0 =
     (let (variationType, g1) = faker_int 0 4 g0 in
      (if variationType = 0 then toUpperCase s
       else if variationType = 1 then hd (split_on CHR '' '' [] s)
       else if variationType = 2 then trim (strip_legal_suffix s)
       else if variationType = 3 then filter (\<lambda>c. c \<noteq> CHR ''.'') s
       else join '' '' (take 2 (split_on CHR '' '' [] s)), g1))"

definition getRandomNameVariation :: "Company \<Rightarrow> source \<Rightarrow> string \<times> source" where
  "getRandomNameVariation company g0 =
     (let (u, g1) = Math_random g0 in
      if u < 0.4 then (name company, g1)
      else (case nameVariations company of
              Some vs \<Rightarrow>
                if 0 < length vs then arrayElement vs g1
                else generateSimpleVariation (name company) g1
            | None \<Rightarrow> generateSimpleVariation (name company) g1))"

section \<open>Products\<close>

record Product =
  pname :: string
  basePrice :: real
  category :: string

definition PRODUCTS :: "Product list" where
  "PRODUCTS =
    [\<lparr>pname = ''Software License - Enterprise'', basePrice = 5000, category = ''software''\<rparr>,
     \<lparr>pname = ''Cloud Hosting - Monthly'', basePrice = 299, category = ''hosting''\<rparr>,
     \<lparr>pname = ''IT Consulting Services'', basePrice = 150, category = ''services''\<rparr>,
     \<lparr>pname = ''Hardware Maintenance Contract'', basePrice = 1200, category = ''maintenance''\<rparr>,
     \<lparr>pname = ''Data Analytics Platform'', basePrice = 2500, category = ''software''\<rparr>,
     \<lparr>pname = ''Cybersecurity Audit'', basePrice = 3500, category = ''services''\<rparr>,
     \<lparr>pname = ''API Integration Services'', basePrice = 800, category = ''services''\<rparr>,
     \<lparr>pname = ''Office Supplies - Bulk Order'', basePrice = 450, category = ''supplies''\<rparr>,
     \<lparr>pname = ''Training Workshop (per person)'', basePrice = 350, category = ''training''\<rparr>,
     \<lparr>pname = ''Technical Support - Annual'', basePrice = 1800, category = ''support''\<rparr>,
     \<lparr>pname = ''Server Equipment'', basePrice = 4500, category = ''hardware''\<rparr>,
     \<lparr>pname = ''Network Infrastructure Setup'', basePrice = 2800, category = ''services''\<rparr>,
     \<lparr>pname = ''Database Migration Services'', basePrice = 1500, category = ''services''\<rparr>,
     \<lparr>pname = ''SSL Certificate - Wildcard'', basePrice = 299, category = ''security''\<rparr>,
     \<lparr>pname = ''Domain Registration (per year)'', basePrice = 25, category = ''hosting''\<rparr>]"

text \<open>
  The name of a made-up product, by category; the adjectives and nouns are faker's (texts of
  the second tape).
\<close>

definition productName :: "string \<Rightarrow> source \<Rightarrow> string \<times> source" where
  "productName cat g0 =
     (if cat = ''software'' then
        (let (a, g1) = faker_text g0; (b, g2) = faker_text g1 in (a @ '' '' @ b @ '' License'', g2))
      else if cat = ''services'' then
        (let (a, g1) = faker_text g0; (b, g2) = faker_text g1 in (a @ '' '' @ b @ '' Services'', g2))
      else if cat = ''hardware'' then
        (let (a, g1) = faker_text g0; (b, g2) = faker_text g1 in (a @ '' '' @ b, g2))
      else if cat = ''supplies'' then
        (let (a, g1) = faker_text g0; (b, g2) = faker_text g1 in (a @ '' Office '' @ b, g2))
      else
        (let (a, g1) = faker_text g0 in (a @ '' Support Package'', g1)))"

definition generateProduct :: "source \<Rightarrow> Product \<times> source" where
  "generateProduct g0 =
     (let (u, g1) = Math_random g0 in
      if u < 0.7 then arrayElement PRODUCTS g1
      else
        (let (cat, g2) = arrayElement [''software'', ''services'', ''hardware'', ''supplies'', ''support''] g1;
             (nm, g3) = productName cat g2;
             (bp, g4) = faker_int 50 5000 g3
         in (\<lparr>pname = nm, basePrice = of_int bp, category = cat\<rparr>, g4)))"

fun getRandomProducts :: "nat \<Rightarrow> source \<Rightarrow> Product list \<times> source" where
  "getRandomProducts 0 g = ([], g)"
| "getRandomProducts (Suc n) g =
     (let (p, g1) = generateProduct g; (ps, g2) = getRandomProducts n g1 in (p # ps, g2))"

definition GENERIC_DESCRIPTIONS :: "string list" where
  "GENERIC_DESCRIPTIONS =
    [''Payment'', ''Invoice Payment'', ''Supplier Payment'', ''Wire Transfer'', ''Bank Transfer'',
     ''Settlement'', ''Account Settlement'', ''Payment Order'', ''SEPA Transfer'',
     ''International Payment'']"

definition getRandomGenericDescription :: "source \<Rightarrow> string \<times> source" where
  "getRandomGenericDescription g = arrayElement GENERIC_DESCRIPTIONS g"

section \<open>The data model of the generator\<close>

text \<open>
  The records follow \<^verbatim>\<open>types.ts\<close>. A field whose name another record or a constant of HOL
  already has carries a prefix: \<open>item_name\<close>, \<open>inv_id\<close>, \<open>tx_date\<close>, \<open>inv_note\<close>, \<open>tc_id\<close>, \<open>ctype\<close>
  and so on; the \<^verbatim>\<open>type\<close> of a test case is \<open>ctype\<close>.
\<close>

datatype TransactionDirection = payables | receivables

datatype TestCaseType =
    perfect_match
  | discount_1_percent
  | discount_2_percent
  | discount_3_percent
  | fx_gain
  | fx_loss
  | partial_match_no_description
  | partial_match_amount_mismatch
  | partial_match_date_far
  | group_payment

record TestCaseConfig =
  cfg_type :: TestCaseType
  cfg_label :: string
  cfg_description :: string
  cfg_quantity :: int

record InvoiceItem =
  item_name :: string
  quantity :: int
  price :: real
  tax :: real

record Invoice =
  inv_id :: string
  number :: string
  date :: string
  dueDate :: string
  supplier :: Company
  customer :: Company
  items :: "InvoiceItem list"
  subtotal :: real
  taxTotal :: real
  total :: real
  currency :: string
  inv_note :: string

record BankTransaction =
  tx_date :: string
  counterparty :: string
  description :: string
  amount_eur :: real

record Metadata =
  originalAmount :: real
  adjustedAmount :: real
  adjustmentReason :: "string option"
  discountPercent :: "int option"
  fxRate :: "real option"
  matchingFields :: "string list"
  mismatchedFields :: "string list"
  groupedInvoiceCount :: "int option"

record TestCase =
  tc_id :: string
  ctype :: TestCaseType
  direction :: TransactionDirection
  invoice :: Invoice
  invoices :: "Invoice list option"
  transaction :: BankTransaction
  metadata :: Metadata

record GeneratedTestSuite =
  suite_id :: string
  createdAt :: string
  suite_direction :: TransactionDirection
  cases :: "TestCase list"
  csvContent :: string

text \<open>A range of two dates: of strings in a request, of \<^verbatim>\<open>Date\<close> objects once parsed.\<close>

record 'a DateRange =
  range_start :: 'a
  range_end :: 'a

text \<open>\<^verbatim>\<open>Partial<Company>\<close>: every field may be absent.\<close>

record PartialCompany =
  p_name :: "string option"
  p_address :: "string option"
  p_phone :: "string option"
  p_email :: "string option"
  p_website :: "string option"
  p_bankName :: "string option"
  p_iban :: "string option"
  p_vatId :: "string option"

section \<open>The generator\<close>

definition DEFAULT_COMPANY :: Company where
  "DEFAULT_COMPANY =
     \<lparr>name = ''Acme Corporation GmbH'',
      address = ''Musterstra'' @ [CHR 0xC3, CHR 0x9F] @ ''e 123, 10115 Berlin, Germany'',
      phone = ''+49 30 555 1234'',
      email = ''accounting@acme-corp.de'',
      website = ''www.acme-corp.de'',
      bankName = ''Deutsche Bank AG'',
      iban = ''DE89370400440532013001'',
      vatId = ''DE987654321'',
      nameVariations = None\<rparr>"

definition generateInvoiceNumber :: "int \<Rightarrow> int \<Rightarrow> TransactionDirection \<Rightarrow> string" where
  "generateInvoiceNumber year sequence dir =
     (let prefix = (if dir = receivables then ''INV'' else ''BILL'')
      in prefix @ ''-'' @ show_int year @ ''-'' @ padStart0 4 (show_int sequence))"

text \<open>The callback of \<^verbatim>\<open>products.map\<close> in \<^verbatim>\<open>generateInvoiceItems\<close>, product by product.\<close>

fun items_of_products :: "Product list \<Rightarrow> source \<Rightarrow> InvoiceItem list \<times> source" where
  "items_of_products [] g = ([], g)"
| "items_of_products (product # products) g0 =
     (let (qty, g1) = randomBetween 1 10 g0;
          (priceVariation, g2) = randomFloat 0.8 1.2 g1;
          pr = toFixed2 (basePrice product * priceVariation);
          (t, g3) = randomBetween 0 2 g2;
          tx = (if t = 0 then 0 else 19);
          (rest, g4) = items_of_products products g3
      in (\<lparr>item_name = pname product, quantity = qty, price = pr, tax = tx\<rparr> # rest, g4))"

definition generateInvoiceItems :: "int \<Rightarrow> source \<Rightarrow> InvoiceItem list \<times> source" where
  "generateInvoiceItems itemCount g0 =
     (let (products, g1) = getRandomProducts (nat itemCount) g0 in items_of_products products g1)"

text \<open>The loop of \<^verbatim>\<open>calculateInvoiceTotals\<close>; both sums start at 0.\<close>

fun totals_loop :: "InvoiceItem list \<Rightarrow> real \<Rightarrow> real \<Rightarrow> real \<times> real" where
  "totals_loop [] sub tx = (sub, tx)"
| "totals_loop (item # rest) sub tx =
     (let itemSubtotal = of_int (quantity item) * price item;
          itemTax = (itemSubtotal * tax item) / 100
      in totals_loop rest (sub + itemSubtotal) (tx + itemTax))"

text \<open>The result is the triple of \<^verbatim>\<open>subtotal\<close>, \<^verbatim>\<open>taxTotal\<close> and \<^verbatim>\<open>total\<close>.\<close>

definition calculateInvoiceTotals :: "InvoiceItem list \<Rightarrow> real \<times> real \<times> real" where
  "calculateInvoiceTotals its =
     (case totals_loop its 0 0 of
        (sub, tx) \<Rightarrow> (toFixed2 sub, toFixed2 tx, toFixed2 (sub + tx)))"

text \<open>
  \<^verbatim>\<open>generateInvoice\<close>. Formatting the Invalid Date throws, so an invoice needs both of its
  dates to be valid; an invalid bound of the range makes every date invalid.
\<close>

definition generateInvoice ::
  "Date DateRange \<Rightarrow> Company \<Rightarrow> Company \<Rightarrow> int \<Rightarrow> TransactionDirection \<Rightarrow> source
     \<Rightarrow> error + (Invoice \<times> source)" where
  "generateInvoice dateRange supp cust invoiceSequence dir g0 =
     (case (range_start dateRange, range_end dateRange) of
        (Some s, Some e) \<Rightarrow>
          (let daysDiff = (e - s) div (1000 * 60 * 60 * 24);
               (randomDays, g1) = randomBetween 0 daysDiff g0;
               invoiceDate = addDays (Some s) randomDays;
               (terms, g2) = randomBetween 14 30 g1;
               due = addDays invoiceDate terms;
               (itemCount, g3) = randomBetween 1 5 g2;
               (its, g4) = generateInvoiceItems itemCount g3;
               (sub, tx, tot) = calculateInvoiceTotals its;
               nt = (if dir = receivables
                     then ''Thank you for your business. Payment due within the specified terms.''
                     else ''Please process payment by the due date. Thank you.'');
               (uuid, g5) = uuidv4 g4
           in case (invoiceDate, formatDate invoiceDate, formatDate due) of
                (Some t, Inr d, Inr dd) \<Rightarrow>
                  Inr (\<lparr>inv_id = uuid,
                        number = generateInvoiceNumber (YearFromTime t) invoiceSequence dir,
                        date = d,
                        dueDate = dd,
                        supplier = supp,
                        customer = cust,
                        items = its,
                        subtotal = sub,
                        taxTotal = tx,
                        total = tot,
                        currency = ''EUR'',
                        inv_note = nt\<rparr>, g5)
              | _ \<Rightarrow> Inl RangeError)
      | _ \<Rightarrow> Inl RangeError)"

definition metadata0 :: "Invoice \<Rightarrow> Metadata" where
  "metadata0 invc =
     \<lparr>originalAmount = total invc, adjustedAmount = total invc, adjustmentReason = None,
      discountPercent = None, fxRate = None, matchingFields = [], mismatchedFields = [],
      groupedInvoiceCount = None\<rparr>"

text \<open>
  The \<^verbatim>\<open>switch\<close> of \<^verbatim>\<open>generateTransaction\<close>: the date, the signed amount, the description
  and the metadata of each case type. Its \<^verbatim>\<open>default\<close> branch is for a value outside the ten
  types, which the datatype does not have.
\<close>

definition transaction_policy ::
  "Invoice \<Rightarrow> TestCaseType \<Rightarrow> TransactionDirection \<Rightarrow> Date \<Rightarrow> real \<Rightarrow> source
     \<Rightarrow> Date \<times> real \<times> string \<times> Metadata \<times> source" where
  "transaction_policy invc ty dir invoiceDate amountSign g1 =
     (case ty of
        perfect_match \<Rightarrow>
          (let (k, g2) = randomBetween 1 7 g1
           in (addDays invoiceDate k, amountSign * total invc, number invc @ '' Payment'',
               (metadata0 invc)\<lparr>matchingFields :=
                  [''counterparty'', ''amount'', ''invoice_number'', ''date_proximity'']\<rparr>, g2))
      | discount_1_percent \<Rightarrow>
          (let (k, g2) = randomBetween 1 5 g1;
               amount = amountSign * toFixed2 (total invc * 0.99)
           in (addDays invoiceDate k, amount, number invc @ '' Payment 1% early discount'',
               (metadata0 invc)\<lparr>adjustedAmount := \<bar>amount\<bar>, discountPercent := Some 1,
                  adjustmentReason := Some ''1% early payment discount'',
                  matchingFields := [''counterparty'', ''invoice_number'', ''date_proximity''],
                  mismatchedFields := [''amount (1% discount applied)'']\<rparr>, g2))
      | discount_2_percent \<Rightarrow>
          (let (k, g2) = randomBetween 1 5 g1;
               amount = amountSign * toFixed2 (total invc * 0.98)
           in (addDays invoiceDate k, amount, number invc @ '' Payment 2% early discount'',
               (metadata0 invc)\<lparr>adjustedAmount := \<bar>amount\<bar>, discountPercent := Some 2,
                  adjustmentReason := Some ''2% early payment discount'',
                  matchingFields := [''counterparty'', ''invoice_number'', ''date_proximity''],
                  mismatchedFields := [''amount (2% discount applied)'']\<rparr>, g2))
      | discount_3_percent \<Rightarrow>
          (let (k, g2) = randomBetween 1 5 g1;
               amount = amountSign * toFixed2 (total invc * 0.97)
           in (addDays invoiceDate k, amount, number invc @ '' Payment 3% early discount'',
               (metadata0 invc)\<lparr>adjustedAmount := \<bar>amount\<bar>, discountPercent := Some 3,
                  adjustmentReason := Some ''3% early payment discount'',
                  matchingFields := [''counterparty'', ''invoice_number'', ''date_proximity''],
                  mismatchedFields := [''amount (3% discount applied)'']\<rparr>, g2))
      | fx_gain \<Rightarrow>
          (let (k, g2) = randomBetween 3 14 g1;
               (gainRate, g3) = randomFloat 0.95 0.99 g2;
               gainMultiplier = (if dir = payables then gainRate else 2 - gainRate);
               amount = amountSign * toFixed2 (total invc * gainMultiplier)
           in (addDays invoiceDate k, amount, number invc @ '' FX Payment'',
               (metadata0 invc)\<lparr>adjustedAmount := \<bar>amount\<bar>, fxRate := Some gainRate,
                  adjustmentReason := Some (''FX gain (rate: '' @ toFixed 4 gainRate @ '')''),
                  matchingFields := [''counterparty'', ''invoice_number''],
                  mismatchedFields := [''amount (FX gain)'']\<rparr>, g3))
      | fx_loss \<Rightarrow>
          (let (k, g2) = randomBetween 3 14 g1;
               (lossRate, g3) = randomFloat 1.01 1.05 g2;
               lossMultiplier = (if dir = payables then lossRate else 2 - lossRate);
               amount = amountSign * toFixed2 (total invc * lossMultiplier)
           in (addDays invoiceDate k, amount, number invc @ '' FX Payment'',
               (metadata0 invc)\<lparr>adjustedAmount := \<bar>amount\<bar>, fxRate := Some lossRate,
                  adjustmentReason := Some (''FX loss (rate: '' @ toFixed 4 lossRate @ '')''),
                  matchingFields := [''counterparty'', ''invoice_number''],
                  mismatchedFields := [''amount (FX loss)'']\<rparr>, g3))
      | partial_match_no_description \<Rightarrow>
          (let (k, g2) = randomBetween 1 10 g1;
               (generic, g3) = getRandomGenericDescription g2
           in (addDays invoiceDate k, amountSign * total invc, generic,
               (metadata0 invc)\<lparr>matchingFields := [''counterparty'', ''amount'', ''date_proximity''],
                  mismatchedFields := [''description (no invoice number)'']\<rparr>, g3))
      | partial_match_amount_mismatch \<Rightarrow>
          (let (k, g2) = randomBetween 1 10 g1;
               (mismatchFactor, g3) = randomFloat 0.99 1.01 g2;
               amount = amountSign * toFixed2 (total invc * mismatchFactor)
           in (addDays invoiceDate k, amount, number invc @ '' Payment'',
               (metadata0 invc)\<lparr>adjustedAmount := \<bar>amount\<bar>,
                  adjustmentReason :=
                    Some ''Unknown amount difference (possible fees or rounding)'',
                  matchingFields := [''counterparty'', ''invoice_number'', ''date_proximity''],
                  mismatchedFields := [''amount (small unexplained difference)'']\<rparr>, g3))
      | partial_match_date_far \<Rightarrow>
          (let (k, g2) = randomBetween 30 60 g1
           in (addDays invoiceDate k, amountSign * total invc, number invc @ '' Late Payment'',
               (metadata0 invc)\<lparr>matchingFields := [''counterparty'', ''amount'', ''invoice_number''],
                  mismatchedFields := [''date (30+ days after invoice)'']\<rparr>, g2))
      | group_payment \<Rightarrow>
          (let (k, g2) = randomBetween 1 7 g1
           in (addDays invoiceDate k, amountSign * total invc, number invc @ '' Payment'',
               (metadata0 invc)\<lparr>matchingFields :=
                  [''counterparty'', ''amount'', ''invoice_number'', ''date_proximity'']\<rparr>, g2)))"

definition generateTransaction ::
  "Invoice \<Rightarrow> TestCaseType \<Rightarrow> TransactionDirection \<Rightarrow> source
     \<Rightarrow> error + ((BankTransaction \<times> Metadata) \<times> source)" where
  "generateTransaction invc ty dir g0 =
     (let invoiceDate = new_Date (date invc);
          counterpartyCompany = (if dir = payables then supplier invc else customer invc);
          (cp, g1) = getRandomNameVariation counterpartyCompany g0;
          amountSign = (if dir = payables then - 1 else 1);
          (transactionDate, amount, descr, meta, g2) =
             transaction_policy invc ty dir invoiceDate amountSign g1
      in case formatDate transactionDate of
           Inl err \<Rightarrow> Inl err
         | Inr d \<Rightarrow>
             Inr ((\<lparr>tx_date = d, counterparty = cp, description = descr, amount_eur = amount\<rparr>,
                   meta), g2))"

definition generateTestCase ::
  "TestCaseType \<Rightarrow> TransactionDirection \<Rightarrow> Date DateRange \<Rightarrow> Company \<Rightarrow> int \<Rightarrow> source
     \<Rightarrow> error + (TestCase \<times> source)" where
  "generateTestCase ty dir dateRange ourCompany invoiceSequence g0 =
     (let (otherParty, g1) = getRandomSupplier g0;
          supp = (if dir = payables then otherParty else ourCompany);
          cust = (if dir = payables then ourCompany else otherParty)
      in case generateInvoice dateRange supp cust invoiceSequence dir g1 of
           Inl err \<Rightarrow> Inl err
         | Inr (invc, g2) \<Rightarrow>
             (case generateTransaction invc ty dir g2 of
                Inl err \<Rightarrow> Inl err
              | Inr ((tx, meta), g3) \<Rightarrow>
                  (let (uuid, g4) = uuidv4 g3
                   in Inr (\<lparr>tc_id = uuid, ctype = ty, direction = dir, invoice = invc,
                            invoices = None, transaction = tx, metadata = meta\<rparr>, g4))))"

text \<open>
  The loop that fills \<^verbatim>\<open>invoices\<close> in \<^verbatim>\<open>generateGroupPaymentTestCase\<close>: \<open>n\<close> invoices are
  still to come, \<open>i\<close> is the loop counter.
\<close>

fun group_invoices ::
  "nat \<Rightarrow> int \<Rightarrow> Date DateRange \<Rightarrow> Company \<Rightarrow> Company \<Rightarrow> int \<Rightarrow> TransactionDirection \<Rightarrow> source
     \<Rightarrow> error + (Invoice list \<times> source)" where
  "group_invoices 0 i dateRange supp cust startingSequence dir g = Inr ([], g)"
| "group_invoices (Suc n) i dateRange supp cust startingSequence dir g =
     (case generateInvoice dateRange supp cust (startingSequence + i) dir g of
        Inl err \<Rightarrow> Inl err
      | Inr (invc, g1) \<Rightarrow>
          (case group_invoices n (i + 1) dateRange supp cust startingSequence dir g1 of
             Inl err \<Rightarrow> Inl err
           | Inr (rest, g2) \<Rightarrow> Inr (invc # rest, g2)))"

text \<open>\<^verbatim>\<open>invDate > latest\<close> on two dates: false as soon as one of them is invalid.\<close>

definition date_gt :: "Date \<Rightarrow> Date \<Rightarrow> bool" where
  "date_gt a b = (case (a, b) of (Some x, Some y) \<Rightarrow> y < x | _ \<Rightarrow> False)"

definition latest_date :: "Invoice list \<Rightarrow> Date \<Rightarrow> Date" where
  "latest_date invs d0 =
     foldl (\<lambda>latest invc. let invDate = new_Date (date invc)
                          in if date_gt invDate latest then invDate else latest) d0 invs"

definition generateGroupPaymentTestCase ::
  "TransactionDirection \<Rightarrow> Date DateRange \<Rightarrow> Company \<Rightarrow> int \<Rightarrow> source
     \<Rightarrow> error + ((TestCase \<times> int) \<times> source)" where
  "generateGroupPaymentTestCase dir dateRange ourCompany startingSequence g0 =
     (let (otherParty, g1) = getRandomSupplier g0;
          supp = (if dir = payables then otherParty else ourCompany);
          cust = (if dir = payables then ourCompany else otherParty);
          (invoiceCount, g2) = randomBetween 2 3 g1
      in case group_invoices (nat invoiceCount) 0 dateRange supp cust startingSequence dir g2 of
           Inl err \<Rightarrow> Inl err
         | Inr (invs, g3) \<Rightarrow>
             (case invs of
                [] \<Rightarrow> Inl TypeError
              | first # _ \<Rightarrow>
                  (let totalAmount = foldl (\<lambda>sum invc. sum + total invc) 0 invs;
                       amountSign = (if dir = payables then - 1 else 1);
                       latestInvoiceDate = latest_date invs (new_Date (date first));
                       (k, g4) = randomBetween 1 7 g3;
                       transactionDate = addDays latestInvoiceDate k;
                       invoiceNumbers = join '', '' (map number invs);
                       descr = ''Batch Payment: '' @ invoiceNumbers;
                       counterpartyCompany = (if dir = payables then supp else cust);
                       (cp, g5) = getRandomNameVariation counterpartyCompany g4
                   in case formatDate transactionDate of
                        Inl err \<Rightarrow> Inl err
                      | Inr d \<Rightarrow>
                          (let tx = \<lparr>tx_date = d, counterparty = cp, description = descr,
                                     amount_eur = toFixed2 (amountSign * totalAmount)\<rparr>;
                               meta = \<lparr>originalAmount = toFixed2 totalAmount,
                                       adjustedAmount = toFixed2 totalAmount,
                                       adjustmentReason =
                                         Some (''Group payment covering '' @ show_int invoiceCount
                                               @ '' invoices''),
                                       discountPercent = None, fxRate = None,
                                       matchingFields = [''counterparty'', ''total_amount'',
                                                         ''invoice_numbers'', ''date_proximity''],
                                       mismatchedFields = [],
                                       groupedInvoiceCount = Some invoiceCount\<rparr>;
                               (uuid, g6) = uuidv4 g5
                           in Inr ((\<lparr>tc_id = uuid, ctype = group_payment, direction = dir,
                                     invoice = first, invoices = Some invs, transaction = tx,
                                     metadata = meta\<rparr>, invoiceCount), g6)))))"

section \<open>The CSV text\<close>

definition csv_row :: "TestCase \<Rightarrow> string" where
  "csv_row tc =
     (let t = transaction tc
      in tx_date t @ '';'' @ counterparty t @ '';'' @ description t @ '';''
         @ show_number (amount_eur t))"

text \<open>\<^verbatim>\<open>a.split(';')[0]\<close>, the key of the sort.\<close>

definition row_date :: "string \<Rightarrow> string" where
  "row_date a = hd (split_on CHR '';'' [] a)"

text \<open>
  \<^verbatim>\<open>rows.sort((a, b) => dateA.localeCompare(dateB))\<close>. \<^verbatim>\<open>Array.prototype.sort\<close> is stable, and
  the comparison depends on the keys alone, so the result is the stable sort by the key.
  \<^verbatim>\<open>localeCompare\<close> is taken as the lexicographic order of the characters, which is how it
  orders two dates written \<^verbatim>\<open>YYYY-MM-DD\<close>.
\<close>

definition generateCSV :: "TestCase list \<Rightarrow> string" where
  "generateCSV testCases =
     (let header = ''date;counterparty;description;amount_eur'';
          rows = map csv_row testCases;
          sorted_rows = sort_key row_date rows
      in join [CHR 0x0A] (header # sorted_rows))"

section \<open>The test suite\<close>

text \<open>\<^verbatim>\<open>{ ...DEFAULT_COMPANY, ...companyOverrides }\<close>\<close>

definition spread_company :: "Company \<Rightarrow> PartialCompany option \<Rightarrow> Company" where
  "spread_company base companyOverrides =
     (case companyOverrides of
        None \<Rightarrow> base
      | Some ov \<Rightarrow>
          base\<lparr>name := case_option (name base) (\<lambda>v. v) (p_name ov),
               address := case_option (address base) (\<lambda>v. v) (p_address ov),
               phone := case_option (phone base) (\<lambda>v. v) (p_phone ov),
               email := case_option (email base) (\<lambda>v. v) (p_email ov),
               website := case_option (website base) (\<lambda>v. v) (p_website ov),
               bankName := case_option (bankName base) (\<lambda>v. v) (p_bankName ov),
               iban := case_option (iban base) (\<lambda>v. v) (p_iban ov),
               vatId := case_option (vatId base) (\<lambda>v. v) (p_vatId ov)\<rparr>)"

text \<open>
  The inner loop of \<^verbatim>\<open>generateTestSuite\<close>, for one configuration entry with \<open>n\<close> units still
  to generate. The result holds the cases, the invoice sequence after them and the rest of the
  random source.
\<close>

fun config_cases ::
  "nat \<Rightarrow> TestCaseType \<Rightarrow> TransactionDirection \<Rightarrow> Date DateRange \<Rightarrow> Company \<Rightarrow> int \<Rightarrow> source
     \<Rightarrow> error + (TestCase list \<times> int \<times> source)" where
  "config_cases 0 ty dir dateRange ourCompany invoiceSequence g = Inr ([], invoiceSequence, g)"
| "config_cases (Suc n) ty dir dateRange ourCompany invoiceSequence g =
     (if ty = group_payment then
        (case generateGroupPaymentTestCase dir dateRange ourCompany invoiceSequence g of
           Inl err \<Rightarrow> Inl err
         | Inr ((testCase, invoicesGenerated), g1) \<Rightarrow>
             (case config_cases n ty dir dateRange ourCompany
                     (invoiceSequence + invoicesGenerated) g1 of
                Inl err \<Rightarrow> Inl err
              | Inr (rest, sequence', g2) \<Rightarrow> Inr (testCase # rest, sequence', g2)))
      else
        (case generateTestCase ty dir dateRange ourCompany invoiceSequence g of
           Inl err \<Rightarrow> Inl err
         | Inr (testCase, g1) \<Rightarrow>
             (case config_cases n ty dir dateRange ourCompany (invoiceSequence + 1) g1 of
                Inl err \<Rightarrow> Inl err
              | Inr (rest, sequence', g2) \<Rightarrow> Inr (testCase # rest, sequence', g2))))"

text \<open>The outer loop, over the configuration entries in their order.\<close>

fun suite_cases ::
  "TestCaseConfig list \<Rightarrow> TransactionDirection \<Rightarrow> Date DateRange \<Rightarrow> Company \<Rightarrow> int \<Rightarrow> source
     \<Rightarrow> error + (TestCase list \<times> int \<times> source)" where
  "suite_cases [] dir dateRange ourCompany invoiceSequence g = Inr ([], invoiceSequence, g)"
| "suite_cases (config # configs) dir dateRange ourCompany invoiceSequence g =
     (case config_cases (nat (cfg_quantity config)) (cfg_type config) dir dateRange ourCompany
             invoiceSequence g of
        Inl err \<Rightarrow> Inl err
      | Inr (testCases, sequence', g1) \<Rightarrow>
          (case suite_cases configs dir dateRange ourCompany sequence' g1 of
             Inl err \<Rightarrow> Inl err
           | Inr (rest, sequence'', g2) \<Rightarrow> Inr (testCases @ rest, sequence'', g2)))"

text \<open>
  \<^verbatim>\<open>generateTestSuite\<close>. The reading of the clock for \<^verbatim>\<open>createdAt\<close> is one more text of the
  source.
\<close>

definition generateTestSuite ::
  "TestCaseConfig list \<Rightarrow> TransactionDirection \<Rightarrow> string DateRange \<Rightarrow> PartialCompany option
     \<Rightarrow> source \<Rightarrow> error + (GeneratedTestSuite \<times> source)" where
  "generateTestSuite configs dir dateRange companyOverrides g0 =
     (let ourCompany = spread_company DEFAULT_COMPANY companyOverrides;
          parsedDateRange = \<lparr>range_start = new_Date (range_start dateRange),
                             range_end = new_Date (range_end dateRange)\<rparr>;
          (invoiceSequence, g1) = randomBetween 100 999 g0
      in case suite_cases configs dir parsedDateRange ourCompany invoiceSequence g1 of
           Inl err \<Rightarrow> Inl err
         | Inr (testCases, _, g2) \<Rightarrow>
             (let csv = generateCSV testCases;
                  (uuid, g3) = uuidv4 g2;
                  (now, g4) = faker_text g3
              in Inr (\<lparr>suite_id = uuid, createdAt = now, suite_direction = dir,
                       cases = testCases, csvContent = csv\<rparr>, g4)))"

section \<open>The data for the PDF\<close>



record PDFCompany =
  logo :: string
  pc_name :: string
  pc_address :: string
  pc_phone :: string
  pc_email :: string
  pc_website :: string
  bank :: string






section \<open>The worker\<close>

text \<open>
  The JSON body of \<^verbatim>\<open>POST /api/generate\<close>. A property that the body lacks is \<open>None\<close>. The
  type \<^verbatim>\<open>GenerationRequest\<close> declares \<^verbatim>\<open>customerCompany\<close>; the handler reads
  \<^verbatim>\<open>myCompany\<close>; a body may carry either.
\<close>

record GenerationRequest =
  req_cases :: "TestCaseConfig list option"
  req_direction :: "TransactionDirection option"
  req_dateRange :: "string option DateRange option"
  customerCompany :: "PartialCompany option"
  myCompany :: "PartialCompany option"

text \<open>A response: the JSON of status 200, or the error message of status 400 or 500.\<close>

datatype 'a Response = Json 'a | BadRequest string | ServerError string

definition api_generate :: "GenerationRequest \<Rightarrow> source \<Rightarrow> GeneratedTestSuite Response" where
  "api_generate body g =
     (case req_cases body of
        None \<Rightarrow> BadRequest ''No test cases specified''
      | Some cs \<Rightarrow>
          if length cs = 0 then BadRequest ''No test cases specified''
          else
            (case req_dateRange body of
               None \<Rightarrow> BadRequest ''Date range is required''
             | Some dr \<Rightarrow>
                 (case (range_start dr, range_end dr) of
                    (Some s, Some e) \<Rightarrow>
                      if s = [] \<or> e = [] then BadRequest ''Date range is required''
                      else
                        (let dir = (case req_direction body of Some d \<Rightarrow> d | None \<Rightarrow> payables)
                         in case generateTestSuite cs dir \<lparr>range_start = s, range_end = e\<rparr>
                                   (myCompany body) g of
                              Inl err \<Rightarrow> ServerError ''Failed to generate test cases''
                            | Inr (testSuite, _) \<Rightarrow> Json testSuite)
                  | _ \<Rightarrow> BadRequest ''Date range is required'')))"


section \<open>Example inputs\<close>

text \<open>
  Generation never leaves the range of time values when both ends of the date range are at
  least a hundred days inside it.
\<close>

definition safe_time :: "int \<Rightarrow> bool" where
  "safe_time t = (\<bar>t\<bar> \<le> 8640000000000000 - 100 * msPerDay)"

definition example_source :: source where
  "example_source = \<lparr>uniform = sconst (1 / 2), words = sconst ''text''\<rparr>"

definition example_range :: "Date DateRange" where
  "example_range = \<lparr>range_start = Some 0, range_end = Some (30 * msPerDay)\<rparr>"




definition days_between :: "string \<Rightarrow> string \<Rightarrow> int option" where
  "days_between a b =
     (case (new_Date a, new_Date b) of
        (Some x, Some y) \<Rightarrow> Some ((y - x) div msPerDay)
      | _ \<Rightarrow> None)"

definition own_company :: "TransactionDirection \<Rightarrow> Invoice \<Rightarrow> Company" where
  "own_company dir invc = (if dir = payables then customer invc else supplier invc)"

section \<open>Rounding to cents and the range of a draw\<close>







lemma toFixed2_id: "toFixed2 (of_int n / 100) = of_int n / 100"
proof -
  have a: "\<lfloor>of_int k + (1::real) / 2\<rfloor> = k" for k :: int by linarith
  show ?thesis
  proof (cases "n < 0")
    case True
    then have "(of_int n / 100 :: real) < 0" by simp
    moreover have "- (of_int n / 100) * 100 + 1 / 2 = (of_int (- n) + 1 / 2 :: real)" by simp
    ultimately show ?thesis using a[of "- n"] by (simp add: toFixed2_def)
  next
    case False
    then have "\<not> (of_int n / 100 :: real) < 0" by simp
    moreover have "(of_int n / 100) * 100 + 1 / 2 = (of_int n + 1 / 2 :: real)" by simp
    ultimately show ?thesis using a[of n] by (simp add: toFixed2_def)
  qed
qed




lemma Math_random_range: "0 \<le> fst (Math_random g)" "fst (Math_random g) < 1"
  by (simp_all add: Math_random_def frac_lt_1)

lemma randomBetween_range:
  assumes "lo \<le> hi"
  shows "lo \<le> fst (randomBetween lo hi g)" "fst (randomBetween lo hi g) \<le> hi"
proof -
  obtain u g' where u: "Math_random g = (u, g')" by (cases "Math_random g")
  have r: "0 \<le> u" "u < 1" using Math_random_range[of g] u by simp_all
  have n: "(0::real) < of_int (hi - lo + 1)" using assms by simp
  have "0 \<le> u * of_int (hi - lo + 1)" using r n by simp
  then have a: "0 \<le> \<lfloor>u * of_int (hi - lo + 1)\<rfloor>" by simp
  have "u * of_int (hi - lo + 1) < of_int (hi - lo + 1)" using r n by simp
  then have b: "\<lfloor>u * of_int (hi - lo + 1)\<rfloor> < hi - lo + 1" by (simp only: floor_less_iff)
  show "lo \<le> fst (randomBetween lo hi g)" "fst (randomBetween lo hi g) \<le> hi"
    using a b by (simp_all add: randomBetween_def u)
qed

lemma randomBetween_any:
  "\<bar>fst (randomBetween lo hi g) - lo\<bar> \<le> \<bar>hi - lo + 1\<bar>"
proof -
  obtain u g' where u: "Math_random g = (u, g')" by (cases "Math_random g")
  have r: "0 \<le> u" "u < 1" using Math_random_range[of g] u by simp_all
  define n where "n = hi - lo + 1"
  have "\<bar>u * of_int n\<bar> \<le> \<bar>of_int n :: real\<bar>" using r by (simp add: abs_mult mult_left_le_one_le)
  then have "- of_int \<bar>n\<bar> \<le> u * of_int n" "u * of_int n \<le> of_int \<bar>n\<bar>" by linarith+
  then have "- \<bar>n\<bar> \<le> \<lfloor>u * of_int n\<rfloor>" "\<lfloor>u * of_int n\<rfloor> \<le> \<bar>n\<bar>"
    by (simp_all add: le_floor_iff floor_le_iff) 
  then show ?thesis by (simp add: randomBetween_def u n_def)
qed


section \<open>The calendar\<close>

lemma DayFromYear_1970: "DayFromYear 1970 = 0"
  by (simp add: DayFromYear_def)

lemma DayFromYear_pred: "DayFromYear (y - 1) = DayFromYear y - DaysInYear (y - 1)"
  using DayFromYear_Suc[of "y - 1"] by simp

lemma DayFromYear_mono: "y \<le> z \<Longrightarrow> DayFromYear y \<le> DayFromYear z"
proof (induction z rule: int_ge_induct)
  case base
  show ?case by simp
next
  case (step i)
  then show ?case using DayFromYear_Suc[of i] DaysInYear_bounds(1)[of i] by linarith
qed

lemma DayFromYear_above: "1970 \<le> y \<Longrightarrow> DayFromYear y \<le> 366 * (y - 1970)"
proof (induction y rule: int_ge_induct)
  case base
  show ?case by (simp add: DayFromYear_1970)
next
  case (step i)
  then show ?case using DayFromYear_Suc[of i] DaysInYear_bounds(2)[of i]
    by (simp add: algebra_simps)
qed

lemma DayFromYear_below: "y \<le> 1970 \<Longrightarrow> DayFromYear y \<le> 365 * (y - 1970)"
proof (induction y rule: int_le_induct)
  case base
  show ?case by (simp add: DayFromYear_1970)
next
  case (step i)
  then show ?case using DayFromYear_pred[of i] DaysInYear_bounds(1)[of "i - 1"]
    by (simp add: algebra_simps)
qed

lemma year_search_spec:
  "DayFromYear y \<le> d \<Longrightarrow>
     DayFromYear (year_search d y) \<le> d \<and> d < DayFromYear (year_search d y + 1)"
proof (induction d y rule: year_search.induct)
  case (1 d y)
  show ?case
  proof (cases "DayFromYear (y + 1) \<le> d")
    case True
    then show ?thesis using "1.IH" by (subst (1 2) year_search.simps) simp
  next
    case False
    then show ?thesis using "1.prems" by (subst (1 2) year_search.simps) simp
  qed
qed

lemma year_start_ok: "DayFromYear (1970 + (if 0 \<le> d then d div 366 else d div 365)) \<le> d"
proof (cases "0 \<le> d")
  case True
  then have "0 \<le> d div 366" by simp
  then have "DayFromYear (1970 + d div 366) \<le> 366 * (d div 366)"
    using DayFromYear_above[of "1970 + d div 366"] by simp
  moreover have "366 * (d div 366) \<le> d" by (simp add: mult.commute)
  ultimately show ?thesis using True by simp
next
  case False
  then have "d div 365 \<le> 0" by (simp add: div_int_pos_iff not_le) 
  then have "DayFromYear (1970 + d div 365) \<le> 365 * (d div 365)"
    using DayFromYear_below[of "1970 + d div 365"] by simp
  moreover have "365 * (d div 365) \<le> d" by (simp add: mult.commute)
  ultimately show ?thesis using False by simp
qed

lemma YearFromDay_spec:
  "DayFromYear (YearFromDay d) \<le> d" "d < DayFromYear (YearFromDay d + 1)"
  using year_search_spec[OF year_start_ok[of d]] by (simp_all add: YearFromDay_def)

lemma YearFromDay_unique:
  assumes "DayFromYear y \<le> d" "d < DayFromYear (y + 1)"
  shows "YearFromDay d = y"
proof (rule ccontr)
  assume ne: "YearFromDay d \<noteq> y"
  show False
  proof (cases "YearFromDay d < y")
    case True
    then have "DayFromYear (YearFromDay d + 1) \<le> DayFromYear y" by (intro DayFromYear_mono) simp
    then show False using YearFromDay_spec(2)[of d] assms(1) by linarith
  next
    case False
    then have "DayFromYear (y + 1) \<le> DayFromYear (YearFromDay d)" using ne by (intro DayFromYear_mono) simp
    then show False using YearFromDay_spec(1)[of d] assms(2) by linarith
  qed
qed

lemma DayWithinYear_range:
  "0 \<le> DayWithinYear t" "DayWithinYear t < DaysInYear (YearFromTime t)"
  using YearFromDay_spec[of "Day t"] DayFromYear_Suc[of "YearFromTime t"]
  by (simp_all add: DayWithinYear_def YearFromTime_def)

lemma InLeapYear_eq: "InLeapYear t = (if leap_year (YearFromTime t) then 1 else 0)"
  by (simp add: InLeapYear_def DaysInYear_def)

lemma month_bounds:
  assumes "l = 0 \<or> l = 1" "0 \<le> dw" "dw < 365 + l"
  shows "MonthFromDay l dw < 12"
    and "MonthStart l (MonthFromDay l dw) \<le> dw"
    and "dw < MonthStart l (MonthFromDay l dw + 1)"
  using assms by (auto simp: MonthFromDay_def MonthStart_def)

lemma month_length:
  assumes "l = 0 \<or> l = 1" "m < 12"
  shows "28 \<le> MonthStart l (m + 1) - MonthStart l m" "MonthStart l (m + 1) - MonthStart l m \<le> 31"
proof -
  have "m = 0 \<or> m = 1 \<or> m = 2 \<or> m = 3 \<or> m = 4 \<or> m = 5 \<or> m = 6 \<or> m = 7 \<or> m = 8 \<or> m = 9
      \<or> m = 10 \<or> m = 11" using assms(2) by arith
  then show "28 \<le> MonthStart l (m + 1) - MonthStart l m" "MonthStart l (m + 1) - MonthStart l m \<le> 31"
    using assms(1) by (auto simp: MonthStart_def)
qed

lemma leap_flag: "InLeapYear t = 0 \<or> InLeapYear t = 1"
  by (simp add: InLeapYear_def)

lemma DayWithinYear_lt: "DayWithinYear t < 365 + InLeapYear t"
  using DayWithinYear_range(2)[of t] by (simp add: InLeapYear_def DaysInYear_def split: if_splits)

lemma MonthFromTime_lt: "MonthFromTime t < 12"
  unfolding MonthFromTime_def
  by (rule month_bounds(1)[OF leap_flag DayWithinYear_range(1) DayWithinYear_lt])

lemma DateFromTime_range:
  "1 \<le> DateFromTime t" "DateFromTime t \<le> DaysInMonth (YearFromTime t) (MonthFromTime t)"
proof -
  note b = month_bounds[OF leap_flag DayWithinYear_range(1) DayWithinYear_lt, of t]
  show "1 \<le> DateFromTime t" using b(2) by (simp add: DateFromTime_def MonthFromTime_def)
  have "DaysInMonth (YearFromTime t) (MonthFromTime t) =
      MonthStart (InLeapYear t) (MonthFromTime t + 1) - MonthStart (InLeapYear t) (MonthFromTime t)"
    by (simp add: DaysInMonth_def InLeapYear_eq)
  then show "DateFromTime t \<le> DaysInMonth (YearFromTime t) (MonthFromTime t)"
    using b(3) by (simp add: DateFromTime_def MonthFromTime_def)
qed

lemma DateFromTime_le_31: "DateFromTime t \<le> 31"
proof -
  have "DaysInMonth (YearFromTime t) (MonthFromTime t) \<le> 31"
    unfolding DaysInMonth_def Let_def
    by (rule month_length(2)[OF _ MonthFromTime_lt]) simp
  then show ?thesis using DateFromTime_range(2)[of t] by linarith
qed

lemma MakeDay_inverse:
  "MakeDay (YearFromTime t) (MonthFromTime t) (DateFromTime t) = Day t"
  by (simp add: MakeDay_def DateFromTime_def DayWithinYear_def InLeapYear_eq)

lemma Day_bounds:
  assumes "\<bar>t\<bar> \<le> 8640000000000000"
  shows "- 100000000 \<le> Day t" "Day t \<le> 100000000"
proof -
  have "(- 100000000 * 86400000) div 86400000 \<le> t div 86400000"
    using assms by (intro zdiv_mono1) simp_all
  then show "- 100000000 \<le> Day t" by (simp add: Day_def msPerDay_def)
  have "t div 86400000 \<le> (100000000 * 86400000) div 86400000"
    using assms by (intro zdiv_mono1) simp_all
  then show "Day t \<le> 100000000" by (simp add: Day_def msPerDay_def)
qed

lemma Day_clip:
  assumes "\<bar>t\<bar> \<le> 8640000000000000"
  shows "TimeClip (Day t * msPerDay) = Some (Day t * msPerDay)"
proof -
  have "- 100000000 * msPerDay \<le> Day t * msPerDay" "Day t * msPerDay \<le> 100000000 * msPerDay"
    using Day_bounds[OF assms] by (simp_all add: msPerDay_def)
  then show ?thesis by (simp add: TimeClip_def msPerDay_def)
qed

lemma year_range:
  assumes "\<bar>t\<bar> \<le> 8640000000000000"
  shows "- 271821 \<le> YearFromTime t" "YearFromTime t \<le> 275760"
proof -
  let ?y = "YearFromTime t"
  have s: "DayFromYear ?y \<le> Day t" "Day t < DayFromYear (?y + 1)"
    using YearFromDay_spec[of "Day t"] by (simp_all add: YearFromTime_def)
  show "- 271821 \<le> ?y"
  proof (rule ccontr)
    assume "\<not> - 271821 \<le> ?y"
    then have "DayFromYear (?y + 1) \<le> DayFromYear (- 271821)" by (intro DayFromYear_mono) simp
    moreover have "DayFromYear (- 271821) < - 100000000" by (simp add: DayFromYear_def)
    ultimately show False using s(2) Day_bounds(1)[OF assms] by linarith
  qed
  show "?y \<le> 275760"
  proof (rule ccontr)
    assume "\<not> ?y \<le> 275760"
    then have "DayFromYear 275761 \<le> DayFromYear ?y" by (intro DayFromYear_mono) simp
    moreover have "100000000 < DayFromYear 275761" by (simp add: DayFromYear_def)
    ultimately show False using s(1) Day_bounds(2)[OF assms] by linarith
  qed
qed

section \<open>Dates as text\<close>

lemma small_cases:
  fixes k :: nat
  assumes "k < 10"
  shows "k = 0 \<or> k = 1 \<or> k = 2 \<or> k = 3 \<or> k = 4 \<or> k = 5 \<or> k = 6 \<or> k = 7 \<or> k = 8 \<or> k = 9"
  using assms by arith

lemma digit_char_props: "is_digit (digit_char n)" "digit_val (digit_char n) = n mod 10"
proof -
  have "n mod 10 < 10" by simp
  from small_cases[OF this]
  show "is_digit (digit_char n)" "digit_val (digit_char n) = n mod 10"
    by (auto simp: digit_char_def is_digit_def digit_val_def upt_conv_Cons)
qed

lemma digit_char_plain: "digit_char n \<notin> {CHR '';'', CHR ''-'', CHR ''+''}"
proof -
  have "n mod 10 < 10" by simp
  from small_cases[OF this] show ?thesis by (auto simp: digit_char_def)
qed

lemma length_fixed_digits [simp]: "length (fixed_digits k n) = k"
  by (induction k arbitrary: n) simp_all

lemma fixed_digits_all: "list_all is_digit (fixed_digits k n)"
  by (induction k arbitrary: n) (simp_all add: digit_char_props)

lemma fixed_digits_plain: "c \<in> set (fixed_digits k n) \<Longrightarrow> c \<notin> {CHR '';'', CHR ''-'', CHR ''+''}"
  using digit_char_plain by (induction k arbitrary: n) auto

lemma foldl_fixed_digits:
  "foldl (\<lambda>a c. 10 * a + digit_val c) a (fixed_digits k n) = a * 10 ^ k + n mod 10 ^ k"
proof (induction k arbitrary: n a)
  case 0
  show ?case by simp
next
  case (Suc k)
  have "foldl (\<lambda>a c. 10 * a + digit_val c) a (fixed_digits (Suc k) n) =
      10 * (a * 10 ^ k + n div 10 mod 10 ^ k) + n mod 10"
    by (simp add: Suc digit_char_props)
  moreover have "n mod (10 * 10 ^ k) = 10 * (n div 10 mod 10 ^ k) + n mod 10"
    by (simp add: mod_mult2_eq)
  ultimately show ?case by (simp add: algebra_simps)
qed

lemma nat_of_fixed_digits:
  assumes "0 < k" "n < 10 ^ k"
  shows "nat_of_digits (fixed_digits k n) = Some n"
proof -
  have "fixed_digits k n \<noteq> []" using assms(1) by (metis length_fixed_digits length_0_conv less_irrefl)
  then show ?thesis using assms(2) by (simp add: nat_of_digits_def fixed_digits_all foldl_fixed_digits)
qed

lemma parse_iso_year:
  assumes "- 999999 \<le> y" "y \<le> 999999"
  shows "parse_year (iso_year y) = Some y"
proof (cases "0 \<le> y \<and> y \<le> 9999")
  case True
  then have "nat y < 10 ^ 4" by auto
  then have "nat_of_digits (fixed_digits 4 (nat y)) = Some (nat y)" by (intro nat_of_fixed_digits) simp_all
  then show ?thesis using True by (simp add: parse_year_def iso_year_def)
next
  case False
  have "nat \<bar>y\<bar> < 10 ^ 6" using assms by auto
  then have d: "nat_of_digits (fixed_digits 6 (nat \<bar>y\<bar>)) = Some (nat \<bar>y\<bar>)"
    by (intro nat_of_fixed_digits) simp_all
  show ?thesis
  proof (cases "y < 0")
    case True
    then show ?thesis using False d by (simp add: parse_year_def iso_year_def)
  next
    case f: False
    then show ?thesis using False d by (simp add: parse_year_def iso_year_def)
  qed
qed

lemma date_text_parts:
  fixes yy mm dd :: string
  assumes "length mm = 2" "length dd = 2"
  defines "s \<equiv> yy @ ''-'' @ mm @ ''-'' @ dd"
  shows "6 \<le> length s" "s ! (length s - 6) = CHR ''-''" "s ! (length s - 3) = CHR ''-''"
    "take (length s - 6) s = yy" "take 2 (drop (length s - 5) s) = mm" "drop (length s - 2) s = dd"
  using assms by (simp_all add: nth_append)

lemma new_Date_of_parts:
  assumes "parse_year yy = Some y" "nat_of_digits mm = Some m" "nat_of_digits dd = Some d"
    "length mm = 2" "length dd = 2"
  shows "new_Date (yy @ ''-'' @ mm @ ''-'' @ dd) =
    (if 1 \<le> m \<and> m \<le> 12 \<and> 1 \<le> d \<and> int d \<le> DaysInMonth y (m - 1)
     then TimeClip (MakeDay y (m - 1) (int d) * msPerDay) else None)"
  unfolding new_Date_def Let_def
  using date_text_parts[OF assms(4,5), of yy] assms(1-3) by (simp only: simp_thms if_True option.case prod.case)

lemma new_Date_formatDate:
  assumes "\<bar>t\<bar> \<le> 8640000000000000" "formatDate (Some t) = Inr s"
  shows "new_Date s = Some (Day t * msPerDay)"
proof -
  let ?y = "YearFromTime t" and ?m = "MonthFromTime t" and ?d = "DateFromTime t"
  have s: "s = iso_year ?y @ ''-'' @ fixed_digits 2 (?m + 1) @ ''-'' @ fixed_digits 2 (nat ?d)"
    using assms(2) by (simp add: formatDate_def)
  have y: "parse_year (iso_year ?y) = Some ?y"
    using year_range[OF assms(1)] by (intro parse_iso_year) simp_all
  have m: "nat_of_digits (fixed_digits 2 (?m + 1)) = Some (?m + 1)"
    using MonthFromTime_lt[of t] by (intro nat_of_fixed_digits) simp_all
  have d: "nat_of_digits (fixed_digits 2 (nat ?d)) = Some (nat ?d)"
    using DateFromTime_le_31[of t] by (intro nat_of_fixed_digits) simp_all
  have ok: "1 \<le> ?m + 1 \<and> ?m + 1 \<le> 12 \<and> 1 \<le> nat ?d \<and> int (nat ?d) \<le> DaysInMonth ?y (?m + 1 - 1)"
    using MonthFromTime_lt[of t] DateFromTime_range[of t] by simp
  have "new_Date s = TimeClip (MakeDay ?y (?m + 1 - 1) (int (nat ?d)) * msPerDay)"
    unfolding s using ok by (subst new_Date_of_parts[OF y m d]) simp_all
  also have "\<dots> = TimeClip (Day t * msPerDay)"
    using DateFromTime_range(1)[of t] by (simp add: MakeDay_inverse)
  finally show ?thesis by (simp add: Day_clip[OF assms(1)])
qed

lemma fixed_digits_no_semicolon: "CHR '';'' \<notin> set (fixed_digits k n)"
  using fixed_digits_plain by blast

lemma iso_year_plain: "CHR '';'' \<notin> set (iso_year y)"
  by (simp add: iso_year_def fixed_digits_no_semicolon)

lemma formatDate_plain:
  assumes "formatDate d = Inr s"
  shows "CHR '';'' \<notin> set s"
  using assms
  by (auto simp: formatDate_def iso_year_plain fixed_digits_no_semicolon split: option.splits)

section \<open>Generating an invoice\<close>

lemma Inr_caseI:
  assumes "x = Inr (a, b)" "P a b"
  shows "case x of Inl err \<Rightarrow> False | Inr (a, b) \<Rightarrow> P a b"
  using assms by simp

lemma example_range_safe:
  "range_start example_range = Some 0" "range_end example_range = Some (30 * msPerDay)"
  "safe_time 0" "safe_time (30 * msPerDay)"
  by (simp_all add: example_range_def safe_time_def msPerDay_def)

lemma randomBetween_reversed:
  assumes "hi < lo"
  shows "hi + 1 \<le> fst (randomBetween lo hi g)" "fst (randomBetween lo hi g) \<le> lo"
proof -
  obtain u g' where u: "Math_random g = (u, g')" by (cases "Math_random g")
  have r: "0 \<le> u" "u < 1" using Math_random_range[of g] u by simp_all
  define n where "n = hi - lo + 1"
  have n: "(of_int n :: real) \<le> 0" using assms by (simp add: n_def)
  have "u * of_int n \<le> 0" using r n by (simp add: mult_nonneg_nonpos)
  then have a: "\<lfloor>u * of_int n\<rfloor> \<le> 0" by (simp add: floor_le_iff)
  have "of_int n * 1 \<le> of_int n * u" using r n by (intro mult_left_mono_neg) simp_all
  then have "of_int n \<le> u * of_int n" by (simp add: mult.commute)
  then have b: "n \<le> \<lfloor>u * of_int n\<rfloor>" by (simp add: le_floor_iff)
  show "hi + 1 \<le> fst (randomBetween lo hi g)" "fst (randomBetween lo hi g) \<le> lo"
    using a b by (simp_all add: randomBetween_def u n_def)
qed

lemma invoice_date_between:
  fixes s e :: int
  assumes r_def: "r = fst (randomBetween 0 ((e - s) div (1000 * 60 * 60 * 24)) g)"
  shows "min s e \<le> s + r * msPerDay" "s + r * msPerDay \<le> max s e"
proof -
  define D :: int where "D = 1000 * 60 * 60 * 24"
  define q where "q = (e - s) div D"
  have D: "0 < D" by (simp add: D_def)
  have dm: "D * q + (e - s) mod D = e - s" unfolding q_def by (rule mult_div_mod_eq)
  have "0 \<le> (e - s) mod D" "(e - s) mod D < D" using D by simp_all
  then have lo: "q * D \<le> e - s" and hi: "e - s < (q + 1) * D"
    using dm by (simp_all add: algebra_simps)
  have r: "r = fst (randomBetween 0 q g)" by (simp add: r_def q_def D_def)
  have m: "msPerDay = D" by (simp add: msPerDay_def D_def)
  have "min s e \<le> s + r * D \<and> s + r * D \<le> max s e"
  proof (cases "0 \<le> q")
    case True
    then have "0 \<le> r" "r \<le> q" using randomBetween_range[of 0 q g] by (simp_all add: r)
    then have "0 \<le> r * D" "r * D \<le> q * D" using D by (simp_all add: mult_right_mono)
    then show ?thesis using lo by linarith
  next
    case False
    then have "q + 1 \<le> r" "r \<le> 0" using randomBetween_reversed[of q 0 g] by (simp_all add: r)
    then have "(q + 1) * D \<le> r * D" "r * D \<le> 0" using D by (simp_all add: mult_right_mono mult_nonpos_nonneg)
    then show ?thesis using hi by linarith
  qed
  then show "min s e \<le> s + r * msPerDay" "s + r * msPerDay \<le> max s e" by (simp_all add: m)
qed

lemma safe_clip: "\<bar>t\<bar> \<le> 8640000000000000 \<Longrightarrow> TimeClip t = Some t"
  by (simp add: TimeClip_def)

lemma formatDate_Some: "\<exists>txt. formatDate (Some t) = Inr txt"
  by (simp add: formatDate_def)

lemma generateInvoice_Inr:
  assumes "generateInvoice dateRange supp cust sq dir g = Inr (invc, g')"
  obtains s e t g1 g2 g3 terms n where
    "range_start dateRange = Some s" "range_end dateRange = Some e"
    "addDays (Some s) (fst (randomBetween 0 ((e - s) div (1000 * 60 * 60 * 24)) g)) = Some t"
    "g1 = snd (randomBetween 0 ((e - s) div (1000 * 60 * 60 * 24)) g)"
    "randomBetween 14 30 g1 = (terms, g2)"
    "randomBetween 1 5 g2 = (n, g3)"
    "items invc = fst (generateInvoiceItems n g3)"
    "(subtotal invc, taxTotal invc, total invc) = calculateInvoiceTotals (items invc)"
    "formatDate (Some t) = Inr (date invc)"
    "formatDate (addDays (Some t) terms) = Inr (dueDate invc)"
    "supplier invc = supp" "customer invc = cust"
    "number invc = generateInvoiceNumber (YearFromTime t) sq dir"
  using assms
  by (auto simp: generateInvoice_def Let_def split: option.splits prod.splits sum.splits)

lemma generateInvoice_ok:
  assumes "range_start dateRange = Some s" "range_end dateRange = Some e" "safe_time s" "safe_time e"
  shows "\<exists>invc g'. generateInvoice dateRange supp cust sq dir g = Inr (invc, g')"
proof -
  define r where "r = fst (randomBetween 0 ((e - s) div (1000 * 60 * 60 * 24)) g)"
  define g1 where "g1 = snd (randomBetween 0 ((e - s) div (1000 * 60 * 60 * 24)) g)"
  define t where "t = s + r * msPerDay"
  have rb: "randomBetween 0 ((e - s) div 86400000) g = (r, g1)"
    by (simp add: r_def g1_def)
  have "min s e \<le> t" "t \<le> max s e" unfolding t_def by (rule invoice_date_between[OF r_def])+
  then have t: "\<bar>t\<bar> \<le> 8640000000000000 - 100 * msPerDay"
    using assms(3,4) by (simp add: safe_time_def min_def max_def split: if_splits)
  then have "TimeClip t = Some t" by (simp add: TimeClip_def msPerDay_def)
  then have inv: "addDays (Some s) r = Some t" by (simp add: addDays_def t_def)
  obtain terms g2 where tg: "randomBetween 14 30 g1 = (terms, g2)" by (cases "randomBetween 14 30 g1")
  have "14 \<le> terms" "terms \<le> 30" using randomBetween_range[of 14 30 g1] tg by simp_all
  then have "\<bar>t + terms * msPerDay\<bar> \<le> 8640000000000000" using t by (simp add: msPerDay_def)
  then have due: "addDays (Some t) terms = Some (t + terms * msPerDay)"
    by (simp add: addDays_def TimeClip_def)
  obtain d1 d2 where f: "formatDate (Some t) = Inr d1" "formatDate (Some (t + terms * msPerDay)) = Inr d2"
    using formatDate_Some by metis
  obtain n g3 where n: "randomBetween 1 5 g2 = (n, g3)" by (cases "randomBetween 1 5 g2")
  obtain its g4 where its: "generateInvoiceItems n g3 = (its, g4)"
    by (cases "generateInvoiceItems n g3")
  obtain sub tx tot where tot: "calculateInvoiceTotals its = (sub, tx, tot)"
    by (cases "calculateInvoiceTotals its")
  obtain uuid g5 where uuid: "uuidv4 g4 = (uuid, g5)" by (cases "uuidv4 g4")
  show ?thesis
    unfolding generateInvoice_def
    by (simp add: assms(1,2) rb inv tg due f n its tot uuid Let_def)
qed

section \<open>Reading the invoice number\<close>



section \<open>Name variations\<close>

lemma uniq_from_props:
  "distinct seen \<Longrightarrow> distinct (uniq_from seen xs)"
  "set (uniq_from seen xs) = set seen \<union> set xs"
  by (induction xs arbitrary: seen) auto

lemma uniq_props: "distinct (uniq xs)" "set (uniq xs) = set xs"
  by (simp_all add: uniq_def uniq_from_props)

lemma generateCompany_variations:
  "nameVariations (fst (generateCompany g)) =
     Some (generateNameVariations
             (fst (generateBusinessName (snd (arrayElement EU_COUNTRIES g))))
             (fst (arrayElement (suffix (fst (arrayElement EU_COUNTRIES g)))
                     (snd (generateBusinessName (snd (arrayElement EU_COUNTRIES g)))))))"
  by (simp add: generateCompany_def Let_def split: prod.splits)

section \<open>Items and totals of a generated invoice\<close>













section \<open>Transactions and test cases\<close>



lemma policy_date:
  assumes "transaction_policy invc ty dir d sg g = (td, amt, descr, meta, g')"
  shows "\<exists>k. 1 \<le> k \<and> k \<le> 60 \<and> td = addDays d k"
proof -
  have r: "1 \<le> k \<and> k \<le> 60" if "randomBetween lo hi g = (k, h)" "1 \<le> lo" "lo \<le> hi" "hi \<le> 60"
    for lo hi k h
    using randomBetween_range[of lo hi g] that by simp
  show ?thesis
    using assms
    by (cases ty)
       (auto simp: transaction_policy_def Let_def split: prod.splits
             dest!: r[where lo = 1 and hi = 7] r[where lo = 1 and hi = 5] r[where lo = 3 and hi = 14]
                    r[where lo = 1 and hi = 10] r[where lo = 30 and hi = 60])
qed


lemma TimeClip_Some: "TimeClip x = Some t \<Longrightarrow> t = x \<and> \<bar>t\<bar> \<le> 8640000000000000"
  by (simp add: TimeClip_def split: if_splits)

lemma addDays_Some:
  assumes "addDays d k = Some t"
  obtains t0 where "d = Some t0" "t = t0 + k * msPerDay" "\<bar>t\<bar> \<le> 8640000000000000"
  using assms by (auto simp: addDays_def split: option.splits dest: TimeClip_Some)

lemma formatDate_Inr: "formatDate d = Inr txt \<Longrightarrow> \<exists>t. d = Some t"
  by (simp add: formatDate_def split: option.splits)

lemma Day_add: "Day (t + k * msPerDay) = Day t + k"
  by (simp add: Day_def msPerDay_def)

lemma Day_floor: "Day t * msPerDay \<le> t" "t < Day t * msPerDay + msPerDay"
proof -
  have eq: "t div msPerDay * msPerDay + t mod msPerDay = t" by (rule div_mult_mod_eq)
  have m: "0 \<le> t mod msPerDay" "t mod msPerDay < msPerDay" by (simp_all add: msPerDay_def)
  show "Day t * msPerDay \<le> t" "t < Day t * msPerDay + msPerDay"
    unfolding Day_def using eq m by linarith+
qed

lemma generateInvoice_dates:
  assumes "generateInvoice dateRange supp cust sq dir g = Inr (invc, g')"
  obtains s e t k where
    "range_start dateRange = Some s" "range_end dateRange = Some e"
    "min s e \<le> t" "t \<le> max s e" "\<bar>t\<bar> \<le> 8640000000000000"
    "14 \<le> k" "k \<le> 30" "\<bar>t + k * msPerDay\<bar> \<le> 8640000000000000"
    "formatDate (Some t) = Inr (date invc)"
    "formatDate (Some (t + k * msPerDay)) = Inr (dueDate invc)"
    "number invc = generateInvoiceNumber (YearFromTime t) sq dir"
proof -
  from assms obtain s e t g1 g2 k where
    r: "range_start dateRange = Some s" "range_end dateRange = Some e"
    and t: "addDays (Some s) (fst (randomBetween 0 ((e - s) div (1000 * 60 * 60 * 24)) g)) = Some t"
    and k: "randomBetween 14 30 g1 = (k, g2)"
    and f: "formatDate (Some t) = Inr (date invc)" "formatDate (addDays (Some t) k) = Inr (dueDate invc)"
    and n: "number invc = generateInvoiceNumber (YearFromTime t) sq dir"
    by (rule generateInvoice_Inr)
  from t have t': "t = s + fst (randomBetween 0 ((e - s) div (1000 * 60 * 60 * 24)) g) * msPerDay"
    and tb: "\<bar>t\<bar> \<le> 8640000000000000"
    by (auto elim: addDays_Some)
  have b: "min s e \<le> t" "t \<le> max s e" unfolding t' by (rule invoice_date_between[OF refl])+
  have kr: "14 \<le> k" "k \<le> 30" using randomBetween_range[of 14 30 g1] k by simp_all
  obtain u where u: "addDays (Some t) k = Some u" using formatDate_Inr[OF f(2)] by blast
  then have u': "u = t + k * msPerDay" and ub: "\<bar>u\<bar> \<le> 8640000000000000"
    by (auto elim: addDays_Some)
  show ?thesis using that[OF r b tb kr] ub f n unfolding u u' by simp
qed

lemma generateInvoice_parsed:
  assumes "generateInvoice dateRange supp cust sq dir g = Inr (invc, g')"
  obtains s e d k where
    "range_start dateRange = Some s" "range_end dateRange = Some e"
    "min s e - msPerDay \<le> d" "d \<le> max s e"
    "new_Date (date invc) = Some d" "new_Date (dueDate invc) = Some (d + k * msPerDay)"
    "14 \<le> k" "k \<le> 30"
proof -
  from assms obtain s e t k where
    r: "range_start dateRange = Some s" "range_end dateRange = Some e"
    and b: "min s e \<le> t" "t \<le> max s e"
    and tb: "\<bar>t\<bar> \<le> 8640000000000000" and kr: "14 \<le> k" "k \<le> 30"
    and ub: "\<bar>t + k * msPerDay\<bar> \<le> 8640000000000000"
    and f: "formatDate (Some t) = Inr (date invc)"
      "formatDate (Some (t + k * msPerDay)) = Inr (dueDate invc)"
    by (rule generateInvoice_dates)
  have d: "new_Date (date invc) = Some (Day t * msPerDay)" using tb f(1) by (rule new_Date_formatDate)
  have "new_Date (dueDate invc) = Some (Day (t + k * msPerDay) * msPerDay)"
    using ub f(2) by (rule new_Date_formatDate)
  then have dd: "new_Date (dueDate invc) = Some (Day t * msPerDay + k * msPerDay)"
    by (simp only: Day_add distrib_right)
  have "min s e - msPerDay \<le> Day t * msPerDay" "Day t * msPerDay \<le> max s e"
    using Day_floor[of t] b by linarith+
  then show ?thesis using that[OF r _ _ d dd kr] by blast
qed

lemma generateTransaction_ok:
  assumes "new_Date (date invc) = Some d" "\<bar>d\<bar> \<le> 8640000000000000 - 60 * msPerDay"
  shows "\<exists>tx meta g'. generateTransaction invc ty dir g = Inr ((tx, meta), g')"
proof -
  obtain cp g1 where
    cp: "getRandomNameVariation (if dir = payables then supplier invc else customer invc) g = (cp, g1)"
    by (cases "getRandomNameVariation (if dir = payables then supplier invc else customer invc) g")
  obtain td amt descr meta g2 where
    p: "transaction_policy invc ty dir (Some d) (if dir = payables then - 1 else 1) g1
          = (td, amt, descr, meta, g2)"
    by (metis prod_cases5)
  obtain k where k: "1 \<le> k" "k \<le> 60" "td = addDays (Some d) k" using policy_date[OF p] by blast
  have "\<bar>d + k * msPerDay\<bar> \<le> 8640000000000000" using assms(2) k(1,2) by (simp add: msPerDay_def)
  then have "td = Some (d + k * msPerDay)" by (simp add: k(3) addDays_def TimeClip_def)
  then obtain ftd where f: "formatDate td = Inr ftd" using formatDate_Some by blast
  show ?thesis
    unfolding generateTransaction_def using cp p f by (simp add: assms(1) Let_def)
qed

lemma generateTestCase_ok:
  assumes "range_start dateRange = Some s" "range_end dateRange = Some e" "safe_time s" "safe_time e"
  shows "\<exists>tc g'. generateTestCase ty dir dateRange our sq g = Inr (tc, g')"
proof -
  obtain other g1 where o: "getRandomSupplier g = (other, g1)" by (cases "getRandomSupplier g")
  define supp where "supp = (if dir = payables then other else our)"
  define cust where "cust = (if dir = payables then our else other)"
  obtain invc g2 where i: "generateInvoice dateRange supp cust sq dir g1 = Inr (invc, g2)"
    using generateInvoice_ok[OF assms] by blast
  from i obtain s' e' d where
    "range_start dateRange = Some s'" "range_end dateRange = Some e'"
    and b: "min s' e' - msPerDay \<le> d" "d \<le> max s' e'" and d: "new_Date (date invc) = Some d"
    by (rule generateInvoice_parsed)
  then have "s' = s" "e' = e" using assms(1,2) by simp_all
  then have "\<bar>d\<bar> \<le> 8640000000000000 - 60 * msPerDay"
    using b assms(3,4) by (auto simp: safe_time_def msPerDay_def min_def max_def split: if_splits)
  with d obtain tx meta g3 where t: "generateTransaction invc ty dir g2 = Inr ((tx, meta), g3)"
    using generateTransaction_ok by blast
  obtain uuid g4 where u: "uuidv4 g3 = (uuid, g4)" by (cases "uuidv4 g3")
  show ?thesis
    unfolding generateTestCase_def
    using o i t u by (simp add: supp_def cust_def Let_def)
qed

section \<open>The policies of the case types\<close>





section \<open>Group payments\<close>


lemma group_invoices_all:
  assumes "group_invoices n i dateRange supp cust sq dir g = Inr (invs, g')"
  shows "length invs = n
    \<and> (\<forall>invc \<in> set invs. \<exists>sq' h h'. generateInvoice dateRange supp cust sq' dir h = Inr (invc, h'))"
  using assms
proof (induction n arbitrary: i g invs)
  case 0
  then show ?case by simp
next
  case (Suc n)
  from Suc.prems obtain invc g1 rest where
    a: "generateInvoice dateRange supp cust (sq + i) dir g = Inr (invc, g1)"
    and b: "group_invoices n (i + 1) dateRange supp cust sq dir g1 = Inr (rest, g')"
    and c: "invs = invc # rest"
    by (auto split: sum.splits)
  from Suc.IH[OF b] a show ?case unfolding c by auto
qed

lemma group_invoices_ok:
  assumes "range_start dateRange = Some s" "range_end dateRange = Some e" "safe_time s" "safe_time e"
  shows "\<exists>invs g'. group_invoices n i dateRange supp cust sq dir g = Inr (invs, g')"
proof (induction n arbitrary: i g)
  case 0
  show ?case by simp
next
  case (Suc n)
  obtain invc g1 where a: "generateInvoice dateRange supp cust (sq + i) dir g = Inr (invc, g1)"
    using generateInvoice_ok[OF assms] by blast
  obtain rest g2 where b: "group_invoices n (i + 1) dateRange supp cust sq dir g1 = Inr (rest, g2)"
    using Suc.IH by blast
  show ?case by (simp add: a b)
qed


lemma latest_date_fold:
  assumes "map (\<lambda>i. new_Date (date i)) invs = map Some ds"
  shows "latest_date invs (Some d0) = Some (foldl max d0 ds)"
  using assms
proof (induction invs arbitrary: d0 ds)
  case Nil
  then show ?case by (simp add: latest_date_def)
next
  case (Cons a invs)
  then obtain d rest where ds: "ds = d # rest" and d: "new_Date (date a) = Some d"
    and r: "map (\<lambda>i. new_Date (date i)) invs = map Some rest"
    by (cases ds) auto
  have "latest_date (a # invs) (Some d0) = latest_date invs (Some (max d0 d))"
    by (simp add: latest_date_def d date_gt_def max_def)
  then show ?case using Cons.IH[OF r, of "max d0 d"] by (simp add: ds)
qed

lemma foldl_max_Max: "foldl max (d0::int) ds = Max (set (d0 # ds))"
proof (induction ds arbitrary: d0)
  case Nil
  show ?case by simp
next
  case (Cons a ds)
  have "Max (insert (max d0 a) (set ds)) = Max (insert d0 (insert a (set ds)))"
    by (cases "set ds = {}") (simp_all add: max.assoc)
  then show ?case using Cons[of "max d0 a"] by simp
qed

lemma invoices_parsed:
  assumes "\<forall>invc \<in> set invs. \<exists>sq' h h'. generateInvoice dateRange supp cust sq' dir h = Inr (invc, h')"
    "range_start dateRange = Some s" "range_end dateRange = Some e"
  shows "\<exists>ds. map (\<lambda>i. new_Date (date i)) invs = map Some ds
           \<and> (\<forall>d \<in> set ds. min s e - msPerDay \<le> d \<and> d \<le> max s e)"
  using assms(1)
proof (induction invs)
  case Nil
  show ?case by simp
next
  case (Cons a invs)
  then obtain ds where ds: "map (\<lambda>i. new_Date (date i)) invs = map Some ds"
    "\<forall>d \<in> set ds. min s e - msPerDay \<le> d \<and> d \<le> max s e"
    by auto
  from Cons.prems obtain sq' h h' where "generateInvoice dateRange supp cust sq' dir h = Inr (a, h')"
    by auto
  then obtain s' e' d where "range_start dateRange = Some s'" "range_end dateRange = Some e'"
    "min s' e' - msPerDay \<le> d" "d \<le> max s' e'" "new_Date (date a) = Some d"
    by (rule generateInvoice_parsed)
  then have "new_Date (date a) = Some d" "min s e - msPerDay \<le> d \<and> d \<le> max s e"
    using assms(2,3) by simp_all
  then show ?case using ds by (intro exI[of _ "d # ds"]) simp
qed


lemma generateGroup_ok:
  assumes "range_start dateRange = Some s" "range_end dateRange = Some e" "safe_time s" "safe_time e"
  shows "\<exists>tc n g'. generateGroupPaymentTestCase dir dateRange our sq g = Inr ((tc, n), g')"
proof -
  obtain other g1 where o: "getRandomSupplier g = (other, g1)" by (cases "getRandomSupplier g")
  define supp where "supp = (if dir = payables then other else our)"
  define cust where "cust = (if dir = payables then our else other)"
  obtain n g2 where n: "randomBetween 2 3 g1 = (n, g2)" by (cases "randomBetween 2 3 g1")
  have nr: "2 \<le> n" using randomBetween_range(1)[of 2 3 g1] n by simp
  obtain invs g3 where gi: "group_invoices (nat n) 0 dateRange supp cust sq dir g2 = Inr (invs, g3)"
    using group_invoices_ok[OF assms] by blast
  note al = group_invoices_all[OF gi]
  then have "length invs = nat n" by simp
  then obtain first rest where fr: "invs = first # rest" using nr by (cases invs) auto
  obtain ds where ds: "map (\<lambda>i. new_Date (date i)) invs = map Some ds"
    and db: "\<forall>d \<in> set ds. min s e - msPerDay \<le> d \<and> d \<le> max s e"
    using invoices_parsed[OF al[THEN conjunct2] assms(1,2)] by blast
  obtain d0 ds' where d0: "ds = d0 # ds'" using ds fr by (cases ds) auto
  then have f: "new_Date (date first) = Some d0" using ds fr by simp
  have l: "latest_date invs (Some d0) = Some (Max (set ds))"
    using latest_date_fold[OF ds, of d0] by (simp add: foldl_max_Max d0)
  have "Max (set ds) \<in> set ds" using d0 by (intro Max_in) simp_all
  then have mb: "min s e - msPerDay \<le> Max (set ds)" "Max (set ds) \<le> max s e" using db by blast+
  obtain k g4 where k: "randomBetween 1 7 g3 = (k, g4)" by (cases "randomBetween 1 7 g3")
  have kr: "1 \<le> k" "k \<le> 7" using randomBetween_range[of 1 7 g3] k by simp_all
  have "\<bar>Max (set ds) + k * msPerDay\<bar> \<le> 8640000000000000"
    using mb kr assms(3,4) by (auto simp: safe_time_def msPerDay_def min_def max_def split: if_splits)
  then have "addDays (Some (Max (set ds))) k = Some (Max (set ds) + k * msPerDay)"
    by (simp add: addDays_def TimeClip_def)
  then obtain ftd where fd: "formatDate (addDays (Some (Max (set ds))) k) = Inr ftd"
    using formatDate_Some by metis
  obtain cp g5 where cp: "getRandomNameVariation (if dir = payables then supp else cust) g4 = (cp, g5)"
    by (cases "getRandomNameVariation (if dir = payables then supp else cust) g4")
  obtain uuid g6 where u: "uuidv4 g5 = (uuid, g6)" by (cases "uuidv4 g5")
  show ?thesis
    unfolding generateGroupPaymentTestCase_def
    using o n gi[unfolded supp_def cust_def] k cp[unfolded supp_def cust_def] u fd
    by (simp add: Let_def fr f l[unfolded fr])
qed

section \<open>The loops of the suite\<close>

lemma config_cases_all:
  assumes "config_cases n ty dir dateRange our sq g = Inr (tcs, sq', g')"
    and "\<And>sq g tc g'. generateTestCase ty dir dateRange our sq g = Inr (tc, g') \<Longrightarrow> P tc"
    and "\<And>sq g tc k g'. generateGroupPaymentTestCase dir dateRange our sq g = Inr ((tc, k), g') \<Longrightarrow> P tc"
  shows "length tcs = n \<and> (\<forall>tc \<in> set tcs. P tc)"
  using assms(1)
proof (induction n arbitrary: sq g tcs)
  case 0
  then show ?case by simp
next
  case (Suc n)
  show ?case
  proof (cases "ty = group_payment")
    case True
    with Suc.prems obtain tc k g1 rest where
      a: "generateGroupPaymentTestCase dir dateRange our sq g = Inr ((tc, k), g1)"
      and b: "config_cases n ty dir dateRange our (sq + k) g1 = Inr (rest, sq', g')"
      and c: "tcs = tc # rest"
      by (auto split: sum.splits)
    from Suc.IH[OF b] assms(3)[OF a] show ?thesis unfolding c by simp
  next
    case False
    with Suc.prems obtain tc g1 rest where
      a: "generateTestCase ty dir dateRange our sq g = Inr (tc, g1)"
      and b: "config_cases n ty dir dateRange our (sq + 1) g1 = Inr (rest, sq', g')"
      and c: "tcs = tc # rest"
      by (auto split: sum.splits)
    from Suc.IH[OF b] assms(2)[OF a] show ?thesis unfolding c by simp
  qed
qed

lemma suite_cases_all:
  assumes "suite_cases configs dir dateRange our sq g = Inr (tcs, sq', g')"
    and "\<And>ty sq g tc g'. generateTestCase ty dir dateRange our sq g = Inr (tc, g') \<Longrightarrow> P tc"
    and "\<And>sq g tc k g'. generateGroupPaymentTestCase dir dateRange our sq g = Inr ((tc, k), g') \<Longrightarrow> P tc"
  shows "length tcs = (\<Sum>c\<leftarrow>configs. nat (cfg_quantity c)) \<and> (\<forall>tc \<in> set tcs. P tc)"
  using assms(1)
proof (induction configs arbitrary: sq g tcs)
  case Nil
  then show ?case by simp
next
  case (Cons c configs)
  from Cons.prems obtain xs sq1 g1 rest where
    a: "config_cases (nat (cfg_quantity c)) (cfg_type c) dir dateRange our sq g = Inr (xs, sq1, g1)"
    and b: "suite_cases configs dir dateRange our sq1 g1 = Inr (rest, sq', g')"
    and c: "tcs = xs @ rest"
    by (auto split: sum.splits)
  from config_cases_all[OF a, of P] assms(2,3) have "length xs = nat (cfg_quantity c)" "\<forall>tc \<in> set xs. P tc"
    by blast+
  with Cons.IH[OF b] show ?case unfolding c by auto
qed

lemma config_cases_ok:
  assumes "range_start dateRange = Some s" "range_end dateRange = Some e" "safe_time s" "safe_time e"
  shows "\<exists>tcs sq' g'. config_cases n ty dir dateRange our sq g = Inr (tcs, sq', g')"
proof (induction n arbitrary: sq g)
  case 0
  show ?case by simp
next
  case (Suc n)
  show ?case
  proof (cases "ty = group_payment")
    case True
    obtain tc k g1 where a: "generateGroupPaymentTestCase dir dateRange our sq g = Inr ((tc, k), g1)"
      using generateGroup_ok[OF assms] by blast
    obtain rest sq' g2 where "config_cases n ty dir dateRange our (sq + k) g1 = Inr (rest, sq', g2)"
      using Suc by blast
    then show ?thesis using True a by simp
  next
    case False
    obtain tc g1 where a: "generateTestCase ty dir dateRange our sq g = Inr (tc, g1)"
      using generateTestCase_ok[OF assms] by blast
    obtain rest sq' g2 where "config_cases n ty dir dateRange our (sq + 1) g1 = Inr (rest, sq', g2)"
      using Suc by blast
    then show ?thesis using False a by simp
  qed
qed

lemma suite_cases_ok:
  assumes "range_start dateRange = Some s" "range_end dateRange = Some e" "safe_time s" "safe_time e"
  shows "\<exists>tcs sq' g'. suite_cases configs dir dateRange our sq g = Inr (tcs, sq', g')"
proof (induction configs arbitrary: sq g)
  case Nil
  show ?case by simp
next
  case (Cons c configs)
  obtain xs sq1 g1 where
    a: "config_cases (nat (cfg_quantity c)) (cfg_type c) dir dateRange our sq g = Inr (xs, sq1, g1)"
    using config_cases_ok[OF assms] by blast
  obtain rest sq2 g2 where "suite_cases configs dir dateRange our sq1 g1 = Inr (rest, sq2, g2)"
    using Cons by blast
  then show ?case using a by simp
qed

lemma generateTestSuite_Inr:
  assumes "generateTestSuite configs dir dateRange ov g = Inr (suite, g')"
  obtains sq g1 sq' g2 where
    "suite_cases configs dir
       \<lparr>range_start = new_Date (range_start dateRange), range_end = new_Date (range_end dateRange)\<rparr>
       (spread_company DEFAULT_COMPANY ov) sq g1 = Inr (cases suite, sq', g2)"
    "csvContent suite = generateCSV (cases suite)" "suite_direction suite = dir"
  using assms
  by (auto simp: generateTestSuite_def Let_def split: prod.splits sum.splits)

lemma generateTestSuite_ok:
  assumes "new_Date (range_start dateRange) = Some s" "new_Date (range_end dateRange) = Some e"
    "safe_time s" "safe_time e"
  shows "\<exists>suite g'. generateTestSuite configs dir dateRange ov g = Inr (suite, g')"
proof -
  obtain sq g1 where sq: "randomBetween 100 999 g = (sq, g1)" by (cases "randomBetween 100 999 g")
  let ?r = "\<lparr>range_start = new_Date (range_start dateRange), range_end = new_Date (range_end dateRange)\<rparr>"
  have r: "range_start ?r = Some s" "range_end ?r = Some e" using assms(1,2) by simp_all
  obtain tcs sq' g2 where
    "suite_cases configs dir ?r (spread_company DEFAULT_COMPANY ov) sq g1 = Inr (tcs, sq', g2)"
    using suite_cases_ok[OF r assms(3,4)] by blast
  then show ?thesis
    unfolding generateTestSuite_def by (simp add: sq Let_def split: prod.splits)
qed

section \<open>The claims\<close>





text \<open>
  C8. The name variations of a company hold no entry twice, and when the base name is longer
  than ten characters they hold its first ten characters in upper case. The variations of a
  generated company are those of its generated base name and legal suffix.
\<close>

theorem name_variations_distinct_and_truncated:
  "distinct (generateNameVariations baseName legalSuffix)
   \<and> (10 < length baseName \<longrightarrow>
        toUpperCase (take 10 baseName) \<in> set (generateNameVariations baseName legalSuffix))
   \<and> nameVariations (fst (generateCompany g)) =
       Some (generateNameVariations
               (fst (generateBusinessName (snd (arrayElement EU_COUNTRIES g))))
               (fst (arrayElement (suffix (fst (arrayElement EU_COUNTRIES g)))
                       (snd (generateBusinessName (snd (arrayElement EU_COUNTRIES g)))))))"
proof (intro conjI impI)
  show "distinct (generateNameVariations baseName legalSuffix)"
    by (simp add: generateNameVariations_def Let_def uniq_props)
  show "toUpperCase (take 10 baseName) \<in> set (generateNameVariations baseName legalSuffix)"
    if "10 < length baseName"
    using that by (simp add: generateNameVariations_def Let_def uniq_props)
  show "nameVariations (fst (generateCompany g)) =
       Some (generateNameVariations
               (fst (generateBusinessName (snd (arrayElement EU_COUNTRIES g))))
               (fst (arrayElement (suffix (fst (arrayElement EU_COUNTRIES g)))
                       (snd (generateBusinessName (snd (arrayElement EU_COUNTRIES g)))))))"
    by (rule generateCompany_variations)
qed

theorem name_variations_distinct_and_truncated_witness:
  "10 < length ''TechSolutions''
   \<and> ''TECHSOLUTI'' \<in> set (generateNameVariations ''TechSolutions'' ''GmbH'')
   \<and> distinct (generateNameVariations ''TechSolutions'' ''GmbH'')"
  using name_variations_distinct_and_truncated [of "''TechSolutions''" "''GmbH''" example_source]
  by (simp add: toUpperCase_def upper_char_def)

text \<open>
  C6. The due date of every generated invoice is its issue date plus a whole number of days
  between 14 and 30, and so is the distance of the two dates as they are written in the invoice.
\<close>

theorem due_date_14_to_30_days_after_issue:
  assumes "generateInvoice dateRange supp cust sq dir g = Inr (invc, g')"
  shows "\<exists>k t. 14 \<le> k \<and> k \<le> 30
           \<and> formatDate (Some t) = Inr (date invc)
           \<and> formatDate (addDays (Some t) k) = Inr (dueDate invc)
           \<and> days_between (date invc) (dueDate invc) = Some k"
proof -
  from assms obtain t k where
    tb: "\<bar>t\<bar> \<le> 8640000000000000" and kr: "14 \<le> k" "k \<le> 30"
    and ub: "\<bar>t + k * msPerDay\<bar> \<le> 8640000000000000"
    and f: "formatDate (Some t) = Inr (date invc)"
      "formatDate (Some (t + k * msPerDay)) = Inr (dueDate invc)"
    by (rule generateInvoice_dates)
  have a: "addDays (Some t) k = Some (t + k * msPerDay)" using ub by (simp add: addDays_def TimeClip_def)
  have d: "new_Date (date invc) = Some (Day t * msPerDay)" using tb f(1) by (rule new_Date_formatDate)
  have "new_Date (dueDate invc) = Some (Day (t + k * msPerDay) * msPerDay)"
    using ub f(2) by (rule new_Date_formatDate)
  then have dd: "new_Date (dueDate invc) = Some (Day t * msPerDay + k * msPerDay)"
    by (simp only: Day_add distrib_right)
  have "(Day t * msPerDay + k * msPerDay - Day t * msPerDay) div msPerDay = k"
    by (simp add: msPerDay_def)
  then have db: "days_between (date invc) (dueDate invc) = Some k"
    by (simp add: days_between_def d dd)
  show ?thesis
    by (intro exI[of _ k] exI[of _ t]) (simp add: kr f a db)
qed

theorem due_date_14_to_30_days_after_issue_witness:
  "case generateInvoice example_range DEFAULT_COMPANY DEFAULT_COMPANY 100 payables example_source of
     Inl err \<Rightarrow> False
   | Inr (invc, g') \<Rightarrow>
       (\<exists>k. 14 \<le> k \<and> k \<le> 30 \<and> days_between (date invc) (dueDate invc) = Some k)"
proof -
  obtain invc g' where
    ok: "generateInvoice example_range DEFAULT_COMPANY DEFAULT_COMPANY 100 payables example_source
           = Inr (invc, g')"
    using generateInvoice_ok[OF example_range_safe] by blast
  from due_date_14_to_30_days_after_issue[OF ok]
  have "\<exists>k. 14 \<le> k \<and> k \<le> 30 \<and> days_between (date invc) (dueDate invc) = Some k" by blast
  with ok show ?thesis by (rule Inr_caseI)
qed







end
